theory Spec2Isabelle
  imports Complex_Main
begin

section \<open>Python strings\<close>

text \<open>
  A Python \<open>str\<close> is modelled as a \<open>string\<close> whose characters are the code points
  0..255 (the Latin-1 range of Unicode). The character classes below are the ones Python's
  \<open>re\<close> module and \<open>str.strip\<close> use on that range.
\<close>

definition is_word_char :: "char \<Rightarrow> bool" where
  \<comment> \<open>the class \<open>\w\<close> of a \<open>str\<close> pattern\<close>
  "is_word_char c =
     (let n = (of_char c :: nat) in
        (48 \<le> n \<and> n \<le> 57) \<or> (65 \<le> n \<and> n \<le> 90) \<or> n = 95 \<or> (97 \<le> n \<and> n \<le> 122) \<or>
        n = 170 \<or> (178 \<le> n \<and> n \<le> 179) \<or> n = 181 \<or> (185 \<le> n \<and> n \<le> 186) \<or>
        (188 \<le> n \<and> n \<le> 190) \<or> (192 \<le> n \<and> n \<le> 214) \<or> (216 \<le> n \<and> n \<le> 246) \<or>
        (248 \<le> n \<and> n \<le> 255))"

definition is_space_char :: "char \<Rightarrow> bool" where
  \<comment> \<open>the class \<open>\s\<close>, which is also what \<open>str.strip()\<close> removes\<close>
  "is_space_char c =
     (let n = (of_char c :: nat) in
        (9 \<le> n \<and> n \<le> 13) \<or> (28 \<le> n \<and> n \<le> 32) \<or> n = 133 \<or> n = 160)"

definition strip :: "string \<Rightarrow> string" where
  "strip s = rev (dropWhile is_space_char (rev (dropWhile is_space_char s)))"

fun str_contains :: "string \<Rightarrow> string \<Rightarrow> bool" where
  \<comment> \<open>\<open>sub in s\<close>\<close>
  "str_contains [] sub = (sub = [])"
| "str_contains (c # cs) sub = (take (length sub) (c # cs) = sub \<or> str_contains cs sub)"

definition digit_char :: "nat \<Rightarrow> char" where
  "digit_char d = char_of (48 + d)"

function str_nat :: "nat \<Rightarrow> string" where
  \<comment> \<open>\<open>str(n)\<close> of a non-negative \<open>int\<close>\<close>
  "str_nat n = (if n < 10 then [digit_char n] else str_nat (n div 10) @ [digit_char (n mod 10)])"
  by pat_completeness auto
termination
  by (relation "measure id") auto

declare str_nat.simps [simp del]

definition digit_val :: "char \<Rightarrow> nat" where
  "digit_val c = of_char c - 48"

definition nat_of_digits :: "string \<Rightarrow> nat" where
  "nat_of_digits s = foldl (\<lambda>a c. 10 * a + digit_val c) 0 s"

section \<open>Core\_RasterCalculation: the expression validator\<close>

definition is_operator_char :: "char \<Rightarrow> bool" where
  "is_operator_char c = (c \<in> set ''+-*/%().'')"

definition allowed_char :: "char \<Rightarrow> bool" where
  \<comment> \<open>the character class \<open>[\w\s\+\-\*\/\%\(\)\.]\<close>\<close>
  "allowed_char c = (is_word_char c \<or> is_space_char c \<or> is_operator_char c)"

definition allowed_match :: "string \<Rightarrow> bool" where
  \<comment> \<open>\<open>allowed.match(expression)\<close> for the pattern \<open>^[...]+$\<close>: the class consumes \<open>p\<close>
      characters, at least one and at most the longest allowed prefix, and \<open>$\<close> matches at
      the end of the string or just before a final newline.\<close>
  "allowed_match s =
     (let k = length (takeWhile allowed_char s); n = length s in
        list_ex (\<lambda>p. p = n \<or> (Suc p = n \<and> s ! p = CHR 0x0A)) [1..<Suc k])"

definition band_names :: "string list" where
  "band_names = [''R1'', ''R2'', ''R3'', ''R4'']"

definition validate_expression :: "string \<Rightarrow> bool \<times> string" where
  "validate_expression expression =
     (if strip expression = [] then (False, ''Expression is empty'')
      else if \<not> allowed_match expression then (False, ''Expression contains invalid characters'')
      else if \<not> list_ex (\<lambda>band. str_contains expression band) band_names
        then (False, ''Expression must reference at least one band (R1-R4)'')
      else (True, ''''))"

section \<open>Core\_RasterCalculation: the raster store\<close>

text \<open>
  A Python \<open>dict\<close> keeps its keys in insertion order: assigning to an existing key keeps
  the key's position, assigning to a new key appends it.
\<close>

fun dict_set :: "'k \<Rightarrow> 'v \<Rightarrow> ('k \<times> 'v) list \<Rightarrow> ('k \<times> 'v) list" where
  "dict_set k v [] = [(k, v)]"
| "dict_set k v (p # ps) = (if fst p = k then (k, v) # ps else p # dict_set k v ps)"

definition dict_get :: "('k \<times> 'v) list \<Rightarrow> 'k \<Rightarrow> 'v option" where
  "dict_get d k = map_of d k"

definition dict_keys :: "('k \<times> 'v) list \<Rightarrow> 'k list" where
  "dict_keys d = map fst d"

record 'r raster_calculator =
  calculated_rasters :: "(string \<times> 'r) list"
  raster_expressions :: "(string \<times> string) list"
  raster_counter :: nat

definition init_calculator :: "'r raster_calculator" where
  "init_calculator = \<lparr>calculated_rasters = [], raster_expressions = [], raster_counter = 0\<rparr>"


definition raster_name_of :: "nat \<Rightarrow> string" where
  \<comment> \<open>\<open>f"Raster {self.raster_counter}"\<close>\<close>
  "raster_name_of n = ''Raster '' @ str_nat n"

definition add_calculated_raster ::
  "string \<Rightarrow> 'r \<Rightarrow> 'r raster_calculator \<Rightarrow> string \<times> 'r raster_calculator" where
  "add_calculated_raster expression result st =
     (let counter = raster_counter st + 1;
          raster_name = raster_name_of counter
      in (raster_name,
          st\<lparr>raster_counter := counter,
             calculated_rasters := dict_set raster_name result (calculated_rasters st),
             raster_expressions := dict_set raster_name expression (raster_expressions st)\<rparr>))"

definition get_raster_list :: "'r raster_calculator \<Rightarrow> string list" where
  "get_raster_list st = dict_keys (calculated_rasters st)"

definition get_raster :: "'r raster_calculator \<Rightarrow> string \<Rightarrow> 'r option" where
  "get_raster st raster_name = dict_get (calculated_rasters st) raster_name"

definition clear_all_rasters :: "'r raster_calculator \<Rightarrow> 'r raster_calculator" where
  "clear_all_rasters st =
     st\<lparr>calculated_rasters := [], raster_expressions := [], raster_counter := 0\<rparr>"

text \<open>
  A session of the store: any sequence of additions and clearings, starting from the
  freshly constructed calculator. The run records the name each addition returned.
\<close>

datatype 'r store_op = Add string 'r | Clear

fun run_store ::
  "'r store_op list \<Rightarrow> string list \<times> 'r raster_calculator \<Rightarrow> string list \<times> 'r raster_calculator" where
  "run_store [] acc = acc"
| "run_store (Add expression result # ops) (names, st) =
     (case add_calculated_raster expression result st of
        (raster_name, st') \<Rightarrow> run_store ops (names @ [raster_name], st'))"
| "run_store (Clear # ops) (names, st) = run_store ops (names, clear_all_rasters st)"

definition generated_names :: "'r store_op list \<Rightarrow> string list" where
  "generated_names ops = fst (run_store ops ([], init_calculator))"

definition store_after :: "'r store_op list \<Rightarrow> 'r raster_calculator" where
  "store_after ops = snd (run_store ops ([], init_calculator))"

section \<open>Lib\_RasterCalculation: the paths that evaluate expressions\<close>




















section \<open>Arrays and widgets\<close>

text \<open>
  A grayscale image is a two-dimensional array of 8-bit pixels, a list of rows; a float
  array is a list of rows of reals (the float arithmetic of the source is read as exact
  arithmetic). Indexing a list out of range and the other exceptions the modelled
  methods do not catch are values of \<open>py_error\<close>.
\<close>

datatype py_error = IndexError | ValueError | Cv2Error

type_synonym image = "nat list list"

type_synonym float_array = "real list list"

definition FRAME_H :: nat where
  "FRAME_H = 480"

definition FRAME_W :: nat where
  "FRAME_W = 640"

definition FULL_W :: nat where
  "FULL_W = FRAME_W * 4"

definition shape :: "'a list list \<Rightarrow> nat \<times> nat" where
  \<comment> \<open>\<open>a.shape\<close> of a two-dimensional array: the number of rows and the length of a row
      (an array's rows all have the same length, so the first row gives it)\<close>
  "shape a = (length a, case a of [] \<Rightarrow> 0 | row # _ \<Rightarrow> length row)"

definition band_slice :: "nat \<Rightarrow> 'a list list \<Rightarrow> 'a list list" where
  \<comment> \<open>\<open>a[:, i * FRAME_W : (i + 1) * FRAME_W]\<close>\<close>
  "band_slice i a = map (\<lambda>row. take ((i + 1) * FRAME_W - i * FRAME_W) (drop (i * FRAME_W) row)) a"

definition as_float :: "image \<Rightarrow> float_array" where
  \<comment> \<open>\<open>a.astype(np.float32)\<close>\<close>
  "as_float a = map (map real) a"

definition array_sub :: "float_array \<Rightarrow> float_array \<Rightarrow> py_error + float_array" where
  \<comment> \<open>\<open>a - b\<close> of two arrays. The calibration store only ever holds tiles of the band shape
      (\<open>load_reference_image\<close> refuses any other image), so only equal shapes are computed;
      every other pair is reported as the \<open>ValueError\<close> numpy raises for shapes it cannot
      broadcast.\<close>
  "array_sub a b =
     (if map length a = map length b then Inr (map2 (map2 (-)) a b) else Inl ValueError)"

definition entry_float :: "(string \<Rightarrow> real option) \<Rightarrow> string list \<Rightarrow> nat \<Rightarrow> real" where
  \<comment> \<open>\<open>try: v = float(entries[i].text())  except Exception: v = 0.0\<close>; \<open>py_float\<close> is
      Python's \<open>float\<close> on a text, \<open>None\<close> where it raises\<close>
  "entry_float py_float entries i =
     (if i < length entries
      then (case py_float (entries ! i) of Some v \<Rightarrow> v | None \<Rightarrow> 0)
      else 0)"

section \<open>Core\_ReflectanceCalculation\<close>

definition exposure_ms :: "int list \<Rightarrow> real list \<Rightarrow> nat \<Rightarrow> py_error + real" where
  \<comment> \<open>the exposure of band \<open>i\<close> in ms: the slider's level, clamped to 1..12, looked up in
      the table; 1.0 where the band has no slider\<close>
  "exposure_ms expo_sliders EXPO_MS i =
     (if i < length expo_sliders then
        (let level = max 1 (min 12 (expo_sliders ! i)) in
           if nat (level - 1) < length EXPO_MS
           then Inr (EXPO_MS ! nat (level - 1))
           else Inl IndexError)
      else Inr 1)"

fun reflectance_bands ::
  "(string \<Rightarrow> real option) \<Rightarrow> image \<Rightarrow> image option list \<Rightarrow> int list \<Rightarrow> string list \<Rightarrow> real list \<Rightarrow>
   nat list \<Rightarrow> float_array list \<Rightarrow> bool \<Rightarrow> (py_error + float_array list option) \<times> bool" where
  \<comment> \<open>the loop \<open>for i in range(4)\<close>; the Boolean is \<open>warning_invalid_params_shown\<close>\<close>
  "reflectance_bands py_float frame bg_tiles expo_sliders ref_cam_entries EXPO_MS [] acc shown =
     (Inr (Some acc), shown)"
| "reflectance_bands py_float frame bg_tiles expo_sliders ref_cam_entries EXPO_MS (i # bands) acc shown =
     (if length bg_tiles \<le> i then (Inl IndexError, shown)
      else case bg_tiles ! i of
        None \<Rightarrow> (Inr None, True)
      | Some bg \<Rightarrow>
          (let cam_tile = as_float (band_slice i frame);
               bg_tile = as_float bg
           in case exposure_ms expo_sliders EXPO_MS i of
                Inl e \<Rightarrow> (Inl e, shown)
              | Inr exp_ms \<Rightarrow>
                  (let ref_rad = entry_float py_float ref_cam_entries i
                   in if exp_ms = 0 \<or> ref_rad = 0 then (Inr None, True)
                      else case array_sub cam_tile bg_tile of
                        Inl e \<Rightarrow> (Inl e, shown)
                      | Inr numerator \<Rightarrow>
                          reflectance_bands py_float frame bg_tiles expo_sliders ref_cam_entries
                            EXPO_MS bands
                            (acc @ [map (map (\<lambda>x. x / exp_ms / ref_rad)) numerator]) shown)))"

definition calculate_reflectance ::
  "(string \<Rightarrow> real option) \<Rightarrow> image option \<Rightarrow> image option list \<Rightarrow> int list \<Rightarrow> string list \<Rightarrow>
   real list \<Rightarrow> bool \<Rightarrow> (py_error + float_array list option) \<times> bool" where
  "calculate_reflectance py_float last_fullframe bg_tiles expo_sliders ref_cam_entries EXPO_MS shown =
     (case last_fullframe of
        None \<Rightarrow> (Inr None, shown)
      | Some frame \<Rightarrow>
          reflectance_bands py_float frame bg_tiles expo_sliders ref_cam_entries EXPO_MS
            [0, 1, 2, 3] [] shown)"

text \<open>The quantities the reflectance formula is stated in, band by band.\<close>

definition band_exposure :: "int list \<Rightarrow> real list \<Rightarrow> nat \<Rightarrow> real" where
  "band_exposure expo_sliders EXPO_MS i =
     (case exposure_ms expo_sliders EXPO_MS i of Inr exp_ms \<Rightarrow> exp_ms | Inl e \<Rightarrow> 0)"

definition band_ready ::
  "(string \<Rightarrow> real option) \<Rightarrow> image option list \<Rightarrow> int list \<Rightarrow> string list \<Rightarrow> real list \<Rightarrow> nat \<Rightarrow> bool" where
  \<comment> \<open>the three preconditions of band \<open>i\<close>\<close>
  "band_ready py_float bg_tiles expo_sliders ref_cam_entries EXPO_MS i =
     (bg_tiles ! i \<noteq> None \<and> band_exposure expo_sliders EXPO_MS i \<noteq> 0 \<and>
      entry_float py_float ref_cam_entries i \<noteq> 0)"

definition band_shape_ok :: "'a list list \<Rightarrow> bool" where
  "band_shape_ok t = (length t = FRAME_H \<and> list_all (\<lambda>row. length row = FRAME_W) t)"

definition frame_shape_ok :: "'a list list \<Rightarrow> bool" where
  "frame_shape_ok f = (length f = FRAME_H \<and> list_all (\<lambda>row. length row = FULL_W) f)"

definition bg_shapes_ok :: "image option list \<Rightarrow> bool" where
  "bg_shapes_ok bg_tiles =
     (length bg_tiles = 4 \<and>
      list_all (\<lambda>t. case t of None \<Rightarrow> True | Some bg \<Rightarrow> band_shape_ok bg) bg_tiles)"

definition reflectance_pixel ::
  "(string \<Rightarrow> real option) \<Rightarrow> image \<Rightarrow> image option list \<Rightarrow> int list \<Rightarrow> string list \<Rightarrow> real list \<Rightarrow>
   nat \<Rightarrow> nat \<Rightarrow> nat \<Rightarrow> real" where
  \<comment> \<open>\<open>(raw_band - dark_noise) / exposure_ms / reference_radiance\<close> at row \<open>r\<close>, column \<open>c\<close>
      of band \<open>i\<close>\<close>
  "reflectance_pixel py_float frame bg_tiles expo_sliders ref_cam_entries EXPO_MS i r c =
     (real (frame ! r ! (i * FRAME_W + c)) -
      real ((case bg_tiles ! i of Some bg \<Rightarrow> bg | None \<Rightarrow> []) ! r ! c))
       / band_exposure expo_sliders EXPO_MS i
       / entry_float py_float ref_cam_entries i"

definition reflectance_tile ::
  "(string \<Rightarrow> real option) \<Rightarrow> image \<Rightarrow> image option list \<Rightarrow> int list \<Rightarrow> string list \<Rightarrow> real list \<Rightarrow>
   nat \<Rightarrow> float_array" where
  \<comment> \<open>the array of band shape holding the formula's value at every pixel of band \<open>i\<close>\<close>
  "reflectance_tile py_float frame bg_tiles expo_sliders ref_cam_entries EXPO_MS i =
     map (\<lambda>r. map (\<lambda>c. reflectance_pixel py_float frame bg_tiles expo_sliders ref_cam_entries
                          EXPO_MS i r c) [0..<FRAME_W]) [0..<FRAME_H]"

definition CameraView_EXPO_MS :: "real list" where
  \<comment> \<open>the table \<open>EXPO_MS\<close> of Core\_CameraView, which the caller passes\<close>
  "CameraView_EXPO_MS =
     [0.04, 0.15, 0.52, 1.08, 2.24, 4.48, 9.03, 18.14, 36.04, 72.99, 146.05, 292.21]"

section \<open>Core\_ReferenceRadianceEstimation\<close>

fun split_on :: "char \<Rightarrow> string \<Rightarrow> string list" where
  \<comment> \<open>\<open>s.split(sep)\<close> for a separator of one character\<close>
  "split_on sep [] = [[]]"
| "split_on sep (c # cs) =
     (if c = sep then [] # split_on sep cs
      else (case split_on sep cs of
              part # parts \<Rightarrow> (c # part) # parts
            | [] \<Rightarrow> [[c]]))"

definition center_roi :: "'a list list \<Rightarrow> 'a list list" where
  \<comment> \<open>\<open>tile[y1:y2, x1:x2]\<close> for the centred window of 100 x 100 pixels, clamped to the tile\<close>
  "center_roi tile =
     (let h = int (fst (shape tile)); w = int (snd (shape tile));
          win_size = 100;
          cx = w div 2; cy = h div 2;
          x1 = max 0 (cx - win_size div 2);
          y1 = max 0 (cy - win_size div 2);
          x2 = min w (cx + win_size div 2);
          y2 = min h (cy + win_size div 2)
      in map (\<lambda>row. take (nat (x2 - x1)) (drop (nat x1) row))
           (take (nat (y2 - y1)) (drop (nat y1) tile)))"

definition roi_mean :: "image \<Rightarrow> real" where
  \<comment> \<open>\<open>0.0 if roi.size == 0 else float(np.mean(roi))\<close>\<close>
  "roi_mean roi =
     (let pixels = concat roi in
        if length pixels = 0 then 0 else real (sum_list pixels) / real (length pixels))"

definition exposure_divisor :: "int \<Rightarrow> real" where
  \<comment> \<open>\<open>expo100 / 100.0 if expo100 != 0 else 1.0\<close>\<close>
  "exposure_divisor expo100 = (if expo100 \<noteq> 0 then real_of_int expo100 / 100 else 1)"

datatype radiance_outcome =
    InvalidCount
  | NoReferenceImage
  | FilenameTooShort
  | FilenameNotParsed
  | Estimated

text \<open>
  A radiance field holds a text. The estimation writes \<open>f"{ref_rad:.2f}"\<close>, the
  two-decimal rendering of the float it computed; the model keeps the value that is
  rendered, \<open>TwoDecimals ref_rad\<close>, and any other content as \<open>FieldText\<close>.
\<close>

datatype radiance_field = FieldText string | TwoDecimals real

fun radiance_bands ::
  "(string \<Rightarrow> real option) \<Rightarrow> image option list \<Rightarrow> string list \<Rightarrow> int list \<Rightarrow>
   nat list \<Rightarrow> radiance_field list \<Rightarrow> py_error + radiance_field list" where
  \<comment> \<open>the loop \<open>for i in range(4)\<close> over the reference tiles\<close>
  "radiance_bands py_float ref_tiles bg_cam_entries expo100_vals [] ref_cam_entries =
     Inr ref_cam_entries"
| "radiance_bands py_float ref_tiles bg_cam_entries expo100_vals (i # bands) ref_cam_entries =
     (if length ref_tiles \<le> i then Inl IndexError
      else case ref_tiles ! i of
        None \<Rightarrow>
          radiance_bands py_float ref_tiles bg_cam_entries expo100_vals bands ref_cam_entries
      | Some tile \<Rightarrow>
          (let mean_val = roi_mean (center_roi tile);
               bg_val = entry_float py_float bg_cam_entries i;
               exp_ms = exposure_divisor (expo100_vals ! i);
               ref_rad = (mean_val - bg_val) / exp_ms
           in radiance_bands py_float ref_tiles bg_cam_entries expo100_vals bands
                (ref_cam_entries[i := TwoDecimals ref_rad])))"

definition estimate_reference_radiance ::
  "(string \<Rightarrow> real option) \<Rightarrow> (string \<Rightarrow> int option) \<Rightarrow> (string \<Rightarrow> string) \<Rightarrow>
   image option list \<Rightarrow> string \<Rightarrow> nat \<Rightarrow> radiance_field list \<Rightarrow> string list \<Rightarrow>
   py_error + radiance_outcome \<times> radiance_field list" where
  \<comment> \<open>\<open>py_int\<close> is Python's \<open>int\<close> on a text (\<open>None\<close> where it raises), \<open>root_name\<close> is
      \<open>os.path.splitext(os.path.basename(path))[0]\<close>, \<open>ref_entry\<close> the text of the path
      field and \<open>n_labels\<close> the number of display labels. The result is the outcome and
      the content of the four radiance fields; the drawing of the region on the labels is
      left out.\<close>
  "estimate_reference_radiance py_float py_int root_name ref_tiles ref_entry n_labels
       ref_cam_entries bg_cam_entries =
     (if n_labels \<noteq> 4 \<or> length ref_cam_entries \<noteq> 4 then Inr (InvalidCount, ref_cam_entries)
      else
        (let ref_path = strip ref_entry in
           if ref_path = [] then Inr (NoReferenceImage, ref_cam_entries)
           else
             (let parts = split_on CHR ''_'' (root_name ref_path); n = length parts in
                if n < 6 then Inr (FilenameTooShort, ref_cam_entries)
                else
                  (case (py_int (parts ! (n - 4)), py_int (parts ! (n - 3)),
                         py_int (parts ! (n - 2)), py_int (parts ! (n - 1))) of
                     (Some e1, Some e2, Some e3, Some e4) \<Rightarrow>
                       (case radiance_bands py_float ref_tiles bg_cam_entries
                               [e1, e2, e3, e4] [0, 1, 2, 3] ref_cam_entries of
                          Inl e \<Rightarrow> Inl e
                        | Inr entries \<Rightarrow> Inr (Estimated, entries))
                   | _ \<Rightarrow> Inr (FilenameNotParsed, ref_cam_entries)))))"

definition exposure_tokens :: "(string \<Rightarrow> string) \<Rightarrow> string \<Rightarrow> string list" where
  \<comment> \<open>the last four underscore-separated tokens of the reference file's name\<close>
  "exposure_tokens root_name ref_entry =
     (let parts = split_on CHR ''_'' (root_name (strip ref_entry)) in drop (length parts - 4) parts)"

text \<open>
  The region as the specification words it, stated on pixel coordinates and independently
  of the slicing above: along an axis of \<open>n\<close> pixels the window of 100 pixels centred at
  \<open>n div 2\<close> runs from \<open>n div 2 - 50\<close> up to, and not including, \<open>n div 2 + 50\<close>, cut off
  at 0 and at \<open>n\<close>; the region is the product of the two windows, and its mean is the sum
  of its pixels over their number.
\<close>

definition centred_window :: "nat \<Rightarrow> nat \<times> nat" where
  "centred_window n = (n div 2 - 50, min n (n div 2 + 50))"

definition window_pixels :: "image \<Rightarrow> nat list" where
  "window_pixels tile =
     concat (map (\<lambda>r. map (\<lambda>c. tile ! r ! c)
                          [fst (centred_window (snd (shape tile)))..<
                           snd (centred_window (snd (shape tile)))])
               [fst (centred_window (fst (shape tile)))..<
                snd (centred_window (fst (shape tile)))])"

definition window_mean :: "image \<Rightarrow> real" where
  "window_mean tile =
     (if window_pixels tile = [] then 0
      else real (sum_list (window_pixels tile)) / real (length (window_pixels tile)))"

definition rectangular :: "'a list list \<Rightarrow> bool" where
  \<comment> \<open>all rows have the length of the first, as the rows of an array do\<close>
  "rectangular a = list_all (\<lambda>row. length row = snd (shape a)) a"

definition tiles_rectangular :: "image option list \<Rightarrow> bool" where
  "tiles_rectangular tiles =
     list_all (\<lambda>t. case t of None \<Rightarrow> True | Some tile \<Rightarrow> rectangular tile) tiles"

definition reference_radiance ::
  "(string \<Rightarrow> real option) \<Rightarrow> image \<Rightarrow> string list \<Rightarrow> int \<Rightarrow> nat \<Rightarrow> real" where
  \<comment> \<open>(mean of the centred region - dark noise of band \<open>i\<close>) / (exposure token / 100.0),
      with the divisor 1.0 for the token 0\<close>
  "reference_radiance py_float tile bg_cam_entries token i =
     (window_mean tile - entry_float py_float bg_cam_entries i)
       / (if token = 0 then 1 else real_of_int token / 100)"

section \<open>Core\_Classifier: loading a model\<close>

datatype load_exception = ModuleNotFound | AttributeMissing | EndOfFile | Unexpected

record 'm classifier =
  model :: "'m option"
  model_path :: "string option"

definition init_classifier :: "'m classifier" where
  "init_classifier = \<lparr>model = None, model_path = None\<rparr>"

definition load_model ::
  "(string \<Rightarrow> nat option) \<Rightarrow> (string \<Rightarrow> load_exception + 'm) \<Rightarrow> ('m \<Rightarrow> bool) \<Rightarrow>
   'm classifier \<Rightarrow> string \<Rightarrow> 'm classifier \<times> bool" where
  \<comment> \<open>\<open>getsize path\<close> is \<open>None\<close> where \<open>os.path.exists\<close> is false and the size in bytes
      otherwise; \<open>joblib_load\<close> is \<open>joblib.load\<close>, returning the exception it raises or the
      object it builds; \<open>has_predict obj\<close> is \<open>hasattr(obj, 'predict')\<close>. The diagnostic
      printing, and the trial prediction whose failure the source ignores, are left out.\<close>
  "load_model getsize joblib_load has_predict st filepath =
     (case getsize filepath of
        None \<Rightarrow> (st, False)
      | Some file_size \<Rightarrow>
          if file_size < 100 then (st, False)
          else
            (case joblib_load filepath of
               Inl e \<Rightarrow> (st, False)
             | Inr obj \<Rightarrow>
                 (let st1 = st\<lparr>model := Some obj\<rparr> in
                    if \<not> has_predict obj then (st1, False)
                    else (st1\<lparr>model_path := Some filepath\<rparr>, True))))"

section \<open>Core\_CameraView: the frame receiver\<close>

text \<open>
  One pass of the receiver loop either finds no message (\<open>zmq.Again\<close>: the thread sleeps
  and retries) or receives a payload. \<open>cv2.imdecode\<close> returns an image, returns
  \<open>None\<close>, or raises; the loop catches \<open>zmq.Again\<close> only, so a raising decoder ends the
  thread. The run is over the receive outcomes up to the interruption request, and yields
  the frames emitted through \<open>frame_received\<close>, in order.
\<close>

datatype receive = Again | Payload "nat list"

datatype decoded = DecodeRaises | NoImage | Image image

fun receiver_run :: "(nat list \<Rightarrow> decoded) \<Rightarrow> receive list \<Rightarrow> image list" where
  "receiver_run imdecode [] = []"
| "receiver_run imdecode (Again # rest) = receiver_run imdecode rest"
| "receiver_run imdecode (Payload data # rest) =
     (case imdecode data of
        DecodeRaises \<Rightarrow> []
      | NoImage \<Rightarrow> receiver_run imdecode rest
      | Image img \<Rightarrow>
          if shape img = (FRAME_H, FULL_W) then img # receiver_run imdecode rest
          else receiver_run imdecode rest)"

fun payloads :: "receive list \<Rightarrow> nat list list" where
  "payloads [] = []"
| "payloads (Again # rest) = payloads rest"
| "payloads (Payload data # rest) = data # payloads rest"

section \<open>Core\_GeoTransform: automatic estimation\<close>

record dmatch =
  distance :: real
  queryIdx :: nat
  trainIdx :: nat

type_synonym point = "real \<times> real"

record match_info =
  keypoints1 :: "point list"
  keypoints2 :: "point list"
  good_matches :: "dmatch list"
  num_kp1 :: nat
  num_kp2 :: nat
  num_matches :: nat
  num_inliers :: nat

datatype 'h result_value = Homography "'h option" | Matches "match_info option"

text \<open>
  The OpenCV calls are parameters. \<open>detect\<close> is \<open>akaze.detectAndCompute(img, None)\<close>:
  the keypoints and the descriptors, which are \<open>None\<close> for an image without keypoints.
  \<open>knn_match\<close> is \<open>bf.knnMatch(query, train, k=2)\<close>: the neighbour lists, or the
  \<open>cv2.error\<close> OpenCV raises (as it does for descriptors of a textured query band
  against a train band that has none). \<open>find_homography\<close> is
  \<open>cv2.findHomography(src, dst, cv2.RANSAC, 5.0)\<close>, whose two results are \<open>None\<close> when
  the estimator fails. The inlier mask is a list of 0 and 1.
\<close>

record ('img, 'desc, 'h) cv2 =
  detect :: "'img \<Rightarrow> point list \<times> 'desc option"
  knn_match :: "'desc option \<Rightarrow> 'desc option \<Rightarrow> py_error + dmatch list list"
  find_homography :: "point list \<Rightarrow> point list \<Rightarrow> 'h option \<times> nat list option"

fun ratio_test :: "dmatch list list \<Rightarrow> dmatch list" where
  \<comment> \<open>keeps the best match of every pair whose distance is below 0.75 of the second's\<close>
  "ratio_test [] = []"
| "ratio_test (m_n # matches) =
     (case m_n of
        [m, n] \<Rightarrow>
          if distance m < 0.75 * distance n then m # ratio_test matches
          else ratio_test matches
      | _ \<Rightarrow> ratio_test matches)"

fun points_at :: "point list \<Rightarrow> nat list \<Rightarrow> py_error + point list" where
  \<comment> \<open>\<open>[kp[j].pt for j in idxs]\<close>\<close>
  "points_at kp [] = Inr []"
| "points_at kp (j # js) =
     (if length kp \<le> j then Inl IndexError
      else case points_at kp js of
        Inl e \<Rightarrow> Inl e
      | Inr pts \<Rightarrow> Inr (kp ! j # pts))"

definition homography_key :: "nat \<Rightarrow> string" where
  \<comment> \<open>\<open>f'H_{i}1'\<close>\<close>
  "homography_key i = ''H_'' @ str_nat i @ ''1''"

definition matches_key :: "nat \<Rightarrow> string" where
  \<comment> \<open>\<open>f'matches_{i}1'\<close>\<close>
  "matches_key i = ''matches_'' @ str_nat i @ ''1''"

record 'h estimation =
  results :: "(string \<times> 'h result_value) list"
  matches_data :: "(string \<times> 'h result_value) list"
  homography_matrices :: "(string \<times> 'h option) list"

fun estimate_bands ::
  "('img, 'desc, 'h) cv2 \<Rightarrow> 'img list \<Rightarrow> point list \<Rightarrow> 'desc option \<Rightarrow> bool \<Rightarrow> nat list \<Rightarrow>
   'h estimation \<Rightarrow> py_error + 'h estimation" where
  \<comment> \<open>the loop \<open>for i in [2, 3, 4]\<close>; nothing in it catches an exception\<close>
  "estimate_bands lib images kp_ref des_ref return_matches [] est = Inr est"
| "estimate_bands lib images kp_ref des_ref return_matches (i # bands) est =
     (if length images \<le> i - 1 then Inl IndexError
      else
        (let (kp_target, des_target) = detect lib (images ! (i - 1))
         in case knn_match lib des_target des_ref of
              Inl e \<Rightarrow> Inl e
            | Inr matches \<Rightarrow>
                (let good = ratio_test matches
                 in if length good \<ge> 4 then
                      (case points_at kp_target (map queryIdx good) of
                         Inl e \<Rightarrow> Inl e
                       | Inr src_pts \<Rightarrow>
                           (case points_at kp_ref (map trainIdx good) of
                              Inl e \<Rightarrow> Inl e
                            | Inr dst_pts \<Rightarrow>
                                (let (H, mask) = find_homography lib src_pts dst_pts;
                                     info = \<lparr>keypoints1 = kp_ref, keypoints2 = kp_target,
                                             good_matches = good,
                                             num_kp1 = length kp_ref, num_kp2 = length kp_target,
                                             num_matches = length good,
                                             num_inliers =
                                               (case mask of Some ms \<Rightarrow> sum_list ms | None \<Rightarrow> 0)\<rparr>
                                 in estimate_bands lib images kp_ref des_ref return_matches bands
                                      (est\<lparr>results :=
                                             dict_set (homography_key i) (Homography H) (results est),
                                           homography_matrices :=
                                             dict_set (homography_key i) H (homography_matrices est),
                                           matches_data :=
                                             (if return_matches
                                              then dict_set (matches_key i) (Matches (Some info))
                                                     (matches_data est)
                                              else matches_data est)\<rparr>))))
                    else
                      estimate_bands lib images kp_ref des_ref return_matches bands
                        (est\<lparr>results :=
                               dict_set (homography_key i) (Homography None) (results est),
                             homography_matrices :=
                               dict_set (homography_key i) None (homography_matrices est),
                             matches_data :=
                               (if return_matches
                                then dict_set (matches_key i) (Matches None) (matches_data est)
                                else matches_data est)\<rparr>))))"

definition dict_update :: "('k \<times> 'v) list \<Rightarrow> ('k \<times> 'v) list \<Rightarrow> ('k \<times> 'v) list" where
  \<comment> \<open>\<open>d.update(other)\<close>\<close>
  "dict_update d other = foldl (\<lambda>acc (k, v). dict_set k v acc) d other"

definition automatic_transformation_estimation ::
  "('img, 'desc, 'h) cv2 \<Rightarrow> (string \<times> 'h option) list \<Rightarrow> 'img list \<Rightarrow> bool \<Rightarrow>
   py_error + (string \<times> 'h result_value) list \<times> (string \<times> 'h option) list" where
  \<comment> \<open>takes \<open>self.homography_matrices\<close> and returns the dictionary the method returns
      together with the new \<open>self.homography_matrices\<close>; an exception is returned alone\<close>
  "automatic_transformation_estimation lib matrices images return_matches =
     (if length images = 0 then Inl IndexError
      else
        (let (kp_ref, des_ref) = detect lib (images ! 0)
         in case estimate_bands lib images kp_ref des_ref return_matches [2, 3, 4]
                   \<lparr>results = [], matches_data = [], homography_matrices = matrices\<rparr> of
              Inl e \<Rightarrow> Inl e
            | Inr est \<Rightarrow>
                Inr (if return_matches then dict_update (results est) (matches_data est)
                     else results est,
                     homography_matrices est)))"

definition init_matrices :: "(string \<times> 'h option) list" where
  "init_matrices = [(''H_21'', None), (''H_31'', None), (''H_41'', None)]"

text \<open>What the estimation sees of target band \<open>i\<close>.\<close>

definition band_matches ::
  "('img, 'desc, 'h) cv2 \<Rightarrow> 'img list \<Rightarrow> nat \<Rightarrow> py_error + dmatch list list" where
  \<comment> \<open>the matcher's answer for target band \<open>i\<close> against the reference band\<close>
  "band_matches lib images i =
     knn_match lib (snd (detect lib (images ! (i - 1)))) (snd (detect lib (images ! 0)))"

definition matcher_returns :: "('img, 'desc, 'h) cv2 \<Rightarrow> 'img list \<Rightarrow> nat \<Rightarrow> bool" where
  "matcher_returns lib images i =
     (case band_matches lib images i of Inr matches \<Rightarrow> True | Inl e \<Rightarrow> False)"

definition band_good :: "('img, 'desc, 'h) cv2 \<Rightarrow> 'img list \<Rightarrow> nat \<Rightarrow> dmatch list" where
  \<comment> \<open>the matches of band \<open>i\<close> that pass the ratio test\<close>
  "band_good lib images i =
     ratio_test (case band_matches lib images i of Inr matches \<Rightarrow> matches | Inl e \<Rightarrow> [])"

definition band_src_pts :: "('img, 'desc, 'h) cv2 \<Rightarrow> 'img list \<Rightarrow> nat \<Rightarrow> point list" where
  \<comment> \<open>the target band's keypoints of the accepted matches\<close>
  "band_src_pts lib images i =
     map (\<lambda>m. fst (detect lib (images ! (i - 1))) ! queryIdx m) (band_good lib images i)"

definition band_dst_pts :: "('img, 'desc, 'h) cv2 \<Rightarrow> 'img list \<Rightarrow> nat \<Rightarrow> point list" where
  \<comment> \<open>the reference band's keypoints of the accepted matches\<close>
  "band_dst_pts lib images i =
     map (\<lambda>m. fst (detect lib (images ! 0)) ! trainIdx m) (band_good lib images i)"

definition band_estimate :: "('img, 'desc, 'h) cv2 \<Rightarrow> 'img list \<Rightarrow> nat \<Rightarrow> 'h option" where
  \<comment> \<open>the robust estimator's answer on the accepted matches of band \<open>i\<close>\<close>
  "band_estimate lib images i =
     fst (find_homography lib (band_src_pts lib images i) (band_dst_pts lib images i))"

definition band_result :: "('img, 'desc, 'h) cv2 \<Rightarrow> 'img list \<Rightarrow> nat \<Rightarrow> 'h option" where
  \<comment> \<open>the estimator's answer when at least 4 matches were accepted, \<open>None\<close> below the floor\<close>
  "band_result lib images i =
     (if 4 \<le> length (band_good lib images i) then band_estimate lib images i else None)"

definition band_info :: "('img, 'desc, 'h) cv2 \<Rightarrow> 'img list \<Rightarrow> nat \<Rightarrow> match_info option" where
  \<comment> \<open>the diagnostics of band \<open>i\<close>, recorded when the estimator was run\<close>
  "band_info lib images i =
     (if 4 \<le> length (band_good lib images i)
      then Some \<lparr>keypoints1 = fst (detect lib (images ! 0)),
                 keypoints2 = fst (detect lib (images ! (i - 1))),
                 good_matches = band_good lib images i,
                 num_kp1 = length (fst (detect lib (images ! 0))),
                 num_kp2 = length (fst (detect lib (images ! (i - 1)))),
                 num_matches = length (band_good lib images i),
                 num_inliers =
                   (case snd (find_homography lib (band_src_pts lib images i)
                                (band_dst_pts lib images i)) of
                      Some ms \<Rightarrow> sum_list ms
                    | None \<Rightarrow> 0)\<rparr>
      else None)"

definition band_step ::
  "('img, 'desc, 'h) cv2 \<Rightarrow> 'img list \<Rightarrow> bool \<Rightarrow> 'h estimation \<Rightarrow> nat \<Rightarrow> 'h estimation" where
  \<comment> \<open>what one pass of the loop records for band \<open>i\<close>\<close>
  "band_step lib images return_matches est i =
     est\<lparr>results := dict_set (homography_key i) (Homography (band_result lib images i)) (results est),
         homography_matrices :=
           dict_set (homography_key i) (band_result lib images i) (homography_matrices est),
         matches_data :=
           (if return_matches
            then dict_set (matches_key i) (Matches (band_info lib images i)) (matches_data est)
            else matches_data est)\<rparr>"

definition indices_in_range :: "('img, 'desc, 'h) cv2 \<Rightarrow> 'img list \<Rightarrow> nat \<Rightarrow> bool" where
  \<comment> \<open>every accepted match of band \<open>i\<close> names a keypoint of the target and one of the
      reference, as the matcher guarantees\<close>
  "indices_in_range lib images i =
     list_all (\<lambda>m. queryIdx m < length (fst (detect lib (images ! (i - 1)))) \<and>
                   trainIdx m < length (fst (detect lib (images ! 0))))
       (band_good lib images i)"

section \<open>Core\_GeoTransform: the configuration file\<close>

text \<open>
  The configuration file is modelled by what \<open>configparser\<close> writes and reads back: the
  list of sections, each a list of options with their text. \<open>py_str\<close> is \<open>str\<close> on a
  matrix entry and \<open>py_parse\<close> is \<open>float\<close> on a text, \<open>None\<close> where it raises.
\<close>

type_synonym ini = "(string \<times> (string \<times> string) list) list"

definition join :: "string \<Rightarrow> string list \<Rightarrow> string" where
  \<comment> \<open>\<open>sep.join(parts)\<close>\<close>
  "join sep parts =
     (case parts of [] \<Rightarrow> [] | part # rest \<Rightarrow> part @ concat (map (\<lambda>q. sep @ q) rest))"

definition matrix_get :: "(string \<times> 'h option) list \<Rightarrow> string \<Rightarrow> 'h option" where
  \<comment> \<open>\<open>self.homography_matrices.get(key)\<close>: \<open>None\<close> for a missing key and for a stored \<open>None\<close>\<close>
  "matrix_get matrices key = (case dict_get matrices key of Some (Some H) \<Rightarrow> Some H | _ \<Rightarrow> None)"

definition save_section :: "('f \<Rightarrow> string) \<Rightarrow> (string \<times> 'f list list option) list \<Rightarrow> ini \<Rightarrow> string \<Rightarrow> ini" where
  "save_section py_str matrices config key =
     (case matrix_get matrices key of
        Some H \<Rightarrow> dict_set key [(''matrix'', join '','' (map py_str (concat H)))] config
      | None \<Rightarrow> dict_set key [(''matrix'', ''None'')] config)"

definition save_config_ini :: "('f \<Rightarrow> string) \<Rightarrow> (string \<times> 'f list list option) list \<Rightarrow> ini" where
  \<comment> \<open>the content written to the file\<close>
  "save_config_ini py_str matrices =
     foldl (save_section py_str matrices) [] [''H_11'', ''H_21'', ''H_31'', ''H_41'']"

fun all_some :: "'a option list \<Rightarrow> 'a list option" where
  "all_some [] = Some []"
| "all_some (None # xs) = None"
| "all_some (Some x # xs) = (case all_some xs of None \<Rightarrow> None | Some ys \<Rightarrow> Some (x # ys))"

definition parse_matrix :: "(string \<Rightarrow> 'f option) \<Rightarrow> string \<Rightarrow> py_error + 'f list list" where
  \<comment> \<open>\<open>np.array([float(v) for v in matrix_str.split(',')]).reshape(3, 3)\<close>\<close>
  "parse_matrix py_parse matrix_str =
     (case all_some (map py_parse (split_on CHR '','' matrix_str)) of
        None \<Rightarrow> Inl ValueError
      | Some vals \<Rightarrow>
          if length vals \<noteq> 9 then Inl ValueError
          else Inr [take 3 vals, take 3 (drop 3 vals), take 3 (drop 6 vals)])"

fun load_keys ::
  "(string \<Rightarrow> 'f option) \<Rightarrow> ini \<Rightarrow> string list \<Rightarrow>
   (string \<times> 'f list list option) list \<times> (string \<times> 'f list list option) list \<Rightarrow>
   (py_error + (string \<times> 'f list list option) list) \<times> (string \<times> 'f list list option) list" where
  \<comment> \<open>the loop \<open>for key in ['H_21', 'H_31', 'H_41']\<close> over the pair of \<open>results\<close> and
      \<open>self.homography_matrices\<close>\<close>
  "load_keys py_parse config [] (res, matrices) = (Inr res, matrices)"
| "load_keys py_parse config (key # keys) (res, matrices) =
     (case dict_get config key of
        None \<Rightarrow> load_keys py_parse config keys (dict_set key None res, dict_set key None matrices)
      | Some section \<Rightarrow>
          (let matrix_str = (case dict_get section ''matrix'' of Some v \<Rightarrow> v | None \<Rightarrow> ''None'')
           in if matrix_str = ''None''
              then load_keys py_parse config keys (dict_set key None res, dict_set key None matrices)
              else case parse_matrix py_parse matrix_str of
                Inl e \<Rightarrow> (Inl e, matrices)
              | Inr H \<Rightarrow>
                  load_keys py_parse config keys
                    (dict_set key (Some H) res, dict_set key (Some H) matrices)))"

definition load_config_ini ::
  "(string \<Rightarrow> 'f option) \<Rightarrow> ini option \<Rightarrow> (string \<times> 'f list list option) list \<Rightarrow>
   (py_error + (string \<times> 'f list list option) list option) \<times> (string \<times> 'f list list option) list" where
  \<comment> \<open>\<open>file\<close> is \<open>None\<close> where the path does not exist. The result is the returned
      dictionary (or the exception) and the new \<open>self.homography_matrices\<close>.\<close>
  "load_config_ini py_parse file matrices =
     (case file of
        None \<Rightarrow> (Inr None, matrices)
      | Some config \<Rightarrow>
          (case load_keys py_parse config [''H_21'', ''H_31'', ''H_41''] ([], matrices) of
             (Inl e, matrices') \<Rightarrow> (Inl e, matrices')
           | (Inr res, matrices') \<Rightarrow> (Inr (Some res), matrices')))"

definition is_3x3 :: "'f list list \<Rightarrow> bool" where
  "is_3x3 H = (length H = 3 \<and> list_all (\<lambda>row. length row = 3) H)"

definition same_matrix :: "('f \<Rightarrow> 'f \<Rightarrow> bool) \<Rightarrow> 'f list list option \<Rightarrow> 'f list list option \<Rightarrow> bool" where
  \<comment> \<open>both \<open>None\<close>, or two matrices of the same shape whose entries are pairwise \<open>close\<close>\<close>
  "same_matrix close a b =
     (case (a, b) of
        (None, None) \<Rightarrow> True
      | (Some A, Some B) \<Rightarrow> list_all2 (list_all2 close) A B
      | _ \<Rightarrow> False)"

definition target_keys :: "string list" where
  "target_keys = [''H_21'', ''H_31'', ''H_41'']"

definition load_key :: "(string \<Rightarrow> 'f option) \<Rightarrow> ini \<Rightarrow> string \<Rightarrow> py_error + 'f list list option" where
  \<comment> \<open>what one pass of the loading loop reads for \<open>key\<close>\<close>
  "load_key py_parse config key =
     (case dict_get config key of
        None \<Rightarrow> Inr None
      | Some section \<Rightarrow>
          (let matrix_str = (case dict_get section ''matrix'' of Some v \<Rightarrow> v | None \<Rightarrow> ''None'')
           in if matrix_str = ''None'' then Inr None
              else case parse_matrix py_parse matrix_str of
                Inl e \<Rightarrow> Inl e
              | Inr H \<Rightarrow> Inr (Some H)))"

definition no_transform :: "ini \<Rightarrow> string \<Rightarrow> bool" where
  \<comment> \<open>the file has no section \<open>key\<close>, or the section has no \<open>matrix\<close> option, or the
      option is the token \<open>None\<close>\<close>
  "no_transform config key =
     (case dict_get config key of
        None \<Rightarrow> True
      | Some section \<Rightarrow>
          (case dict_get section ''matrix'' of None \<Rightarrow> True | Some v \<Rightarrow> v = ''None''))"

definition reparses :: "('f \<Rightarrow> string) \<Rightarrow> (string \<Rightarrow> 'f option) \<Rightarrow> ('f \<Rightarrow> 'f \<Rightarrow> bool) \<Rightarrow> 'f \<Rightarrow> bool" where
  \<comment> \<open>the text of \<open>x\<close> has no comma and parses to a value \<open>close\<close> to \<open>x\<close>\<close>
  "reparses py_str py_parse close x =
     (CHR '','' \<notin> set (py_str x) \<and>
      (case py_parse (py_str x) of Some y \<Rightarrow> close x y | None \<Rightarrow> False))"

definition storable ::
  "('f \<Rightarrow> string) \<Rightarrow> (string \<Rightarrow> 'f option) \<Rightarrow> ('f \<Rightarrow> 'f \<Rightarrow> bool) \<Rightarrow> 'f list list option \<Rightarrow> bool" where
  \<comment> \<open>no matrix, or a matrix of 3 x 3 entries that all reparse\<close>
  "storable py_str py_parse close m =
     (case m of
        None \<Rightarrow> True
      | Some H \<Rightarrow> is_3x3 H \<and> list_all (list_all (reparses py_str py_parse close)) H)"

section \<open>Reference tiles for the radiance estimation\<close>

definition tile_bright_centre :: image where
  \<comment> \<open>a band-shaped tile that is 80 on the rows 190..289 of the columns 270..369 and 0
      elsewhere\<close>
  "tile_bright_centre =
     replicate 190 (replicate 640 0) @
     replicate 100 (replicate 270 0 @ replicate 100 80 @ replicate 270 0) @
     replicate 190 (replicate 640 0)"

definition tile_flat :: image where
  \<comment> \<open>a band-shaped tile that is 7 everywhere\<close>
  "tile_flat = replicate 480 (replicate 640 7)"

definition tile_two_halves :: image where
  \<comment> \<open>a band-shaped tile that is 60 on the rows 190..239, 40 on the rows 240..289 and
      200 on all other rows\<close>
  "tile_two_halves =
     replicate 190 (replicate 640 200) @
     replicate 50 (replicate 640 60) @ replicate 50 (replicate 640 40) @
     replicate 190 (replicate 640 200)"

section \<open>A test double for the OpenCV calls\<close>

definition unambiguous :: "nat \<Rightarrow> dmatch list" where
  \<comment> \<open>a pair of neighbours whose best distance 10 is below 0.75 of the second-best 20\<close>
  "unambiguous j =
     [\<lparr>distance = 10, queryIdx = j, trainIdx = j\<rparr>, \<lparr>distance = 20, queryIdx = j, trainIdx = 0\<rparr>]"

definition ambiguous :: "nat \<Rightarrow> dmatch list" where
  \<comment> \<open>a pair whose best distance 15 is not below 0.75 of the second-best 20\<close>
  "ambiguous j =
     [\<lparr>distance = 15, queryIdx = j, trainIdx = j\<rparr>, \<lparr>distance = 20, queryIdx = j, trainIdx = 0\<rparr>]"

definition stub_cv2 :: "(nat, nat, string) cv2" where
  \<comment> \<open>images and descriptors are numbers. The image 0 is featureless: no keypoints, no
      descriptors; every other image has five keypoints. The matcher raises for a query
      with descriptors against a train band without; otherwise the image 2 has five
      unambiguous matches and one ambiguous, the image 3 has three unambiguous matches,
      any other image has four. The estimator succeeds on five point pairs only.\<close>
  "stub_cv2 =
     \<lparr>detect = (\<lambda>img.
         if img = 0 then ([], None)
         else ([(0, 0), (1, 0), (0, 1), (1, 1), (2, 2)], Some img)),
      knn_match = (\<lambda>query train.
         case query of
           None \<Rightarrow> Inr []
         | Some q \<Rightarrow>
             (case train of
                None \<Rightarrow> Inl Cv2Error
              | Some t \<Rightarrow>
                  if q = 2 then Inr (map unambiguous [0, 1, 2, 3, 4] @ [ambiguous 2])
                  else if q = 3 then Inr (map unambiguous [0, 1, 2] @ [ambiguous 3, ambiguous 4])
                  else Inr (map unambiguous [0, 1, 2, 3]))),
      find_homography = (\<lambda>src dst.
         if length src = 5 then (Some ''H'', Some [1, 1, 1, 1, 0]) else (None, None))\<rparr>"

section \<open>Invariants\<close>

definition names_bounded :: "'r raster_calculator \<Rightarrow> bool" where
  \<comment> \<open>every stored name is \<open>Raster k\<close> for some \<open>k\<close> from 1 up to the counter\<close>
  "names_bounded st =
     list_all (\<lambda>name. list_ex (\<lambda>k. name = raster_name_of k) [1..<Suc (raster_counter st)])
       (get_raster_list st)"



section \<open>Properties of the expression validator\<close>

lemma str_contains_subset: "str_contains s sub \<Longrightarrow> set sub \<subseteq> set s"
proof (induction s)
  case Nil
  then show ?case by simp
next
  case (Cons c cs)
  from Cons.prems have "take (length sub) (c # cs) = sub \<or> str_contains cs sub" by simp
  then show ?case
  proof
    assume "take (length sub) (c # cs) = sub"
    then have "set sub = set (take (length sub) (c # cs))" by simp
    then show ?thesis using set_take_subset by fast
  next
    assume "str_contains cs sub"
    then show ?thesis using Cons.IH by auto
  qed
qed

lemma strip_empty_iff: "strip s = [] \<longleftrightarrow> list_all is_space_char s"
proof -
  have "strip s = [] \<longleftrightarrow> (\<forall>x \<in> set (dropWhile is_space_char s). is_space_char x)"
    by (simp add: strip_def dropWhile_eq_Nil_conv)
  also have "\<dots> \<longleftrightarrow> dropWhile is_space_char s = []"
  proof
    assume a: "\<forall>x \<in> set (dropWhile is_space_char s). is_space_char x"
    show "dropWhile is_space_char s = []"
    proof (rule ccontr)
      assume ne: "dropWhile is_space_char s \<noteq> []"
      then have "\<not> is_space_char (hd (dropWhile is_space_char s))" by (rule hd_dropWhile)
      moreover have "hd (dropWhile is_space_char s) \<in> set (dropWhile is_space_char s)"
        using ne by simp
      ultimately show False using a by blast
    qed
  next
    assume "dropWhile is_space_char s = []"
    then show "\<forall>x \<in> set (dropWhile is_space_char s). is_space_char x"
      by (simp only: list.set ball_empty)
  qed
  also have "\<dots> \<longleftrightarrow> list_all is_space_char s"
    by (simp add: dropWhile_eq_Nil_conv list_all_iff)
  finally show ?thesis .
qed

lemma allowed_match_all:
  assumes "s \<noteq> []" and "list_all allowed_char s"
  shows "allowed_match s"
proof -
  have "takeWhile allowed_char s = s"
    using assms(2) by (simp add: takeWhile_eq_all_conv list_all_iff)
  moreover have "length s \<in> set [1..<Suc (length s)]"
    using assms(1) by (cases s) auto
  ultimately show ?thesis
    unfolding allowed_match_def Let_def list_ex_iff by metis
qed

lemma band_not_space: "b \<in> set band_names \<Longrightarrow> \<not> list_all is_space_char b"
  by (auto simp: band_names_def is_space_char_def)

text \<open>
  C7, as stated: the validator rejects \<open>R1 ** 2\<close>. It does not: the validator looks at
  the characters and at the band names only, and \<open>*\<close>, the space and the word characters
  are all allowed.
\<close>

theorem validate_power_counterexample:
  "\<not> (fst (validate_expression ''R1 ** 2'') = False)"
  by code_simp

text \<open>
  C7, amended: the validator accepts \<open>R1 ** 2\<close>, with the empty message.
\<close>

theorem validate_power_accepted:
  "validate_expression ''R1 ** 2'' = (True, '''')"
  by code_simp

text \<open>
  C10: the validator constrains the character set, not the syntax. Every text whose
  characters are all word characters, whitespace or one of \<open>+ - * / % ( ) .\<close> and that
  contains one of \<open>R1\<close>..\<open>R4\<close> is accepted; \<open>R1 import os\<close> is accepted; \<open>import os\<close>
  has allowed characters only and is rejected for the missing band reference.
\<close>

theorem validate_expression_charset_only:
  "(list_all allowed_char s \<and> list_ex (str_contains s) band_names
      \<longrightarrow> validate_expression s = (True, ''''))
   \<and> validate_expression ''R1 import os'' = (True, '''')
   \<and> list_all allowed_char ''import os''
   \<and> validate_expression ''import os'' =
        (False, ''Expression must reference at least one band (R1-R4)'')"
proof (intro conjI impI)
  assume a: "list_all allowed_char s \<and> list_ex (str_contains s) band_names"
  then obtain b where b: "b \<in> set band_names" "str_contains s b"
    by (auto simp: list_ex_iff)
  have sub: "set b \<subseteq> set s" using b(2) by (rule str_contains_subset)
  have "\<not> list_all is_space_char s"
    using band_not_space[OF b(1)] sub by (auto simp: list_all_iff)
  then have ne: "strip s \<noteq> []" by (simp add: strip_empty_iff)
  then have "s \<noteq> []" by (auto simp: strip_def)
  then have "allowed_match s" using a allowed_match_all by blast
  then show "validate_expression s = (True, '''')"
    using ne a by (simp add: validate_expression_def)
next
  show "validate_expression ''R1 import os'' = (True, '''')" by code_simp
next
  show "list_all allowed_char ''import os''" by code_simp
next
  show "validate_expression ''import os'' =
        (False, ''Expression must reference at least one band (R1-R4)'')" by code_simp
qed

text \<open>The theorem at the text \<open>R1 + R2\<close>.\<close>

theorem validate_expression_charset_only_witness:
  "list_all allowed_char ''R1 + R2'' \<and> list_ex (str_contains ''R1 + R2'') band_names
   \<and> validate_expression ''R1 + R2'' = (True, '''')"
proof -
  have h: "list_all allowed_char ''R1 + R2'' \<and> list_ex (str_contains ''R1 + R2'') band_names"
    by code_simp
  show ?thesis using h validate_expression_charset_only [of "''R1 + R2''"] by blast
qed

section \<open>Properties of the model loader\<close>

lemma load_model_missing_file:
  "getsize filepath = None \<Longrightarrow>
   load_model getsize joblib_load has_predict st filepath = (st, False)"
  by (simp add: load_model_def)

lemma load_model_small_file:
  "getsize filepath = Some n \<Longrightarrow> n < 100 \<Longrightarrow>
   load_model getsize joblib_load has_predict st filepath = (st, False)"
  by (simp add: load_model_def)

lemma load_model_deserialization_error:
  "joblib_load filepath = Inl e \<Longrightarrow>
   load_model getsize joblib_load has_predict st filepath = (st, False)"
  by (simp add: load_model_def split: option.splits)

lemma load_model_without_predict:
  "getsize filepath = Some n \<Longrightarrow> 100 \<le> n \<Longrightarrow> joblib_load filepath = Inr obj \<Longrightarrow>
   \<not> has_predict obj \<Longrightarrow>
   load_model getsize joblib_load has_predict st filepath = (st\<lparr>model := Some obj\<rparr>, False)"
  by (simp add: load_model_def)

text \<open>
  C3: a failing \<open>load_model\<close> leaves the stored model unchanged, and an object without
  \<open>predict\<close> is never stored. The first three failures (missing file, file under 100
  bytes, exception of the deserializer) do leave the engine as it was. The fourth does
  not: the source assigns the deserialized object to \<open>self.model\<close> before it looks for
  \<open>predict\<close>. Here the engine holds the model \<open>''forest''\<close> loaded from \<open>old.joblib\<close>;
  the file \<open>new.joblib\<close> has 4096 bytes and deserializes to the object \<open>''dict''\<close>, which
  has no \<open>predict\<close>. The call reports failure, and the engine's model is \<open>''dict''\<close>.
\<close>

theorem load_model_stores_object_without_predict:
  "load_model (\<lambda>p. Some 4096) (\<lambda>p. Inr ''dict'') (\<lambda>obj. obj = ''forest'')
     \<lparr>model = Some ''forest'', model_path = Some ''old.joblib''\<rparr> ''new.joblib''
   = (\<lparr>model = Some ''dict'', model_path = Some ''old.joblib''\<rparr>, False)"
  by (simp add: load_model_def)

section \<open>Properties of the frame receiver\<close>

lemma shape_replicate: "0 < h \<Longrightarrow> shape (replicate h (replicate w x)) = (h, w)"
  by (cases h) (simp_all add: shape_def)

lemma receiver_run_emitted:
  "f \<in> set (receiver_run imdecode events) \<Longrightarrow>
   shape f = (FRAME_H, FULL_W) \<and> (\<exists>data. data \<in> set (payloads events) \<and> imdecode data = Image f)"
proof (induction imdecode events rule: receiver_run.induct)
  case (1 imdecode)
  then show ?case by simp
next
  case (2 imdecode rest)
  then show ?case by simp
next
  case (3 imdecode data rest)
  show ?case
  proof (cases "imdecode data")
    case DecodeRaises
    with 3 show ?thesis by simp
  next
    case NoImage
    with 3 show ?thesis by auto
  next
    case (Image img)
    show ?thesis
    proof (cases "shape img = (FRAME_H, FULL_W)")
      case True
      with 3 Image show ?thesis by auto
    next
      case False
      with 3 Image show ?thesis by auto
    qed
  qed
qed

text \<open>
  C9: the receiver never emits a mis-shaped frame. Whatever the decoder does and whatever
  arrives, every frame the receiver emits was decoded successfully from one of the
  received payloads and has exactly the shape (480, 2560); a payload that does not decode,
  or decodes to any other shape, contributes nothing.
\<close>

theorem receiver_emits_only_full_frames:
  "(FRAME_H, FULL_W) = (480, 2560) \<and>
   (\<forall>f \<in> set (receiver_run imdecode events).
      shape f = (FRAME_H, FULL_W) \<and>
      (\<exists>data. data \<in> set (payloads events) \<and> imdecode data = Image f))"
  using receiver_run_emitted by (auto simp: FRAME_H_def FULL_W_def FRAME_W_def)

text \<open>
  The theorem at a run that receives one payload decoding to a black frame of the full
  shape, and one that decodes to a single band.
\<close>

theorem receiver_emits_only_full_frames_witness:
  "receiver_run (\<lambda>data. if data = [1] then Image (replicate 480 (replicate 2560 0))
                         else Image (replicate 480 (replicate 640 0)))
     [Again, Payload [2], Payload [1]] = [replicate 480 (replicate 2560 0)]
   \<and> shape (replicate 480 (replicate 2560 (0::nat))) = (480, 2560)"
proof -
  let ?dec = "\<lambda>data::nat list. if data = [1] then Image (replicate 480 (replicate 2560 0))
                         else Image (replicate 480 (replicate 640 0))"
  let ?events = "[Again, Payload [2], Payload [1]]"
  have run: "receiver_run ?dec ?events = [replicate 480 (replicate 2560 0)]"
    by (simp add: shape_replicate FRAME_H_def FULL_W_def FRAME_W_def)
  then have mem: "replicate 480 (replicate 2560 0) \<in> set (receiver_run ?dec ?events)"
    by simp
  have "shape (replicate 480 (replicate 2560 (0::nat))) = (FRAME_H, FULL_W)"
    using receiver_emits_only_full_frames [of ?dec ?events] mem by blast
  then show ?thesis
    using run by (simp add: FRAME_H_def FULL_W_def FRAME_W_def)
qed

section \<open>Properties of the raster store\<close>

lemma digit_val_digit_char: "d < 10 \<Longrightarrow> digit_val (digit_char d) = d"
  by (simp add: digit_val_def digit_char_def)

lemma nat_of_digits_str_nat: "nat_of_digits (str_nat n) = n"
proof (induction n rule: str_nat.induct)
  case (1 n)
  show ?case
  proof (cases "n < 10")
    case True
    then show ?thesis
      by (subst str_nat.simps) (simp add: nat_of_digits_def digit_val_digit_char)
  next
    case False
    then have ih: "nat_of_digits (str_nat (n div 10)) = n div 10"
      using 1 by simp
    have "nat_of_digits (str_nat n) =
            10 * nat_of_digits (str_nat (n div 10)) + digit_val (digit_char (n mod 10))"
      using False by (subst str_nat.simps) (simp add: nat_of_digits_def)
    also have "\<dots> = 10 * (n div 10) + n mod 10"
      by (simp add: ih digit_val_digit_char)
    finally show ?thesis by simp
  qed
qed

lemma str_nat_inj: "str_nat m = str_nat n \<Longrightarrow> m = n"
  by (metis nat_of_digits_str_nat)

lemma raster_name_of_inj: "raster_name_of m = raster_name_of n \<Longrightarrow> m = n"
  by (simp add: raster_name_of_def str_nat_inj)

lemma dict_keys_dict_set: "set (dict_keys (dict_set k v d)) = insert k (set (dict_keys d))"
  by (induction d) (auto simp: dict_keys_def)

lemma set_dict_set: "set (dict_set k v d) \<subseteq> insert (k, v) (set d)"
  by (induction d) auto

lemma names_bounded_init: "names_bounded init_calculator"
  by (simp add: names_bounded_def init_calculator_def get_raster_list_def dict_keys_def)

lemma names_bounded_clear: "names_bounded (clear_all_rasters st)"
  by (simp add: names_bounded_def clear_all_rasters_def get_raster_list_def dict_keys_def)

lemma names_bounded_add:
  assumes "names_bounded st"
  shows "names_bounded (snd (add_calculated_raster e r st))"
proof -
  have "\<And>name. name \<in> set (get_raster_list st) \<Longrightarrow>
          \<exists>k \<in> set [1..<Suc (Suc (raster_counter st))]. name = raster_name_of k"
  proof -
    fix name
    assume "name \<in> set (get_raster_list st)"
    then obtain k where "k \<in> set [1..<Suc (raster_counter st)]" "name = raster_name_of k"
      using assms by (auto simp: names_bounded_def list_all_iff list_ex_iff)
    then show "\<exists>k \<in> set [1..<Suc (Suc (raster_counter st))]. name = raster_name_of k"
      by auto
  qed
  moreover have "\<exists>k \<in> set [1..<Suc (Suc (raster_counter st))].
                   raster_name_of (Suc (raster_counter st)) = raster_name_of k"
    by auto
  ultimately show ?thesis
    by (auto simp: names_bounded_def add_calculated_raster_def Let_def get_raster_list_def
        dict_keys_dict_set list_all_iff list_ex_iff)
qed

lemma run_store_bounded:
  "names_bounded st \<Longrightarrow> names_bounded (snd (run_store ops (names, st)))"
proof (induction ops arbitrary: names st)
  case Nil
  then show ?case by simp
next
  case (Cons op ops)
  show ?case
  proof (cases op)
    case (Add e r)
    have "names_bounded (snd (add_calculated_raster e r st))"
      by (rule names_bounded_add[OF Cons.prems])
    then have "names_bounded (snd (run_store ops
        (names @ [fst (add_calculated_raster e r st)], snd (add_calculated_raster e r st))))"
      by (rule Cons.IH)
    then show ?thesis
      using Add by (simp add: case_prod_beta)
  next
    case Clear
    then show ?thesis
      using Cons.IH[OF names_bounded_clear] by simp
  qed
qed

lemma store_after_bounded: "names_bounded (store_after ops)"
  unfolding store_after_def by (rule run_store_bounded[OF names_bounded_init])

lemma add_name_fresh:
  assumes "names_bounded st"
  shows "fst (add_calculated_raster e r st) \<notin> set (get_raster_list st)"
proof
  assume "fst (add_calculated_raster e r st) \<in> set (get_raster_list st)"
  then have "raster_name_of (Suc (raster_counter st)) \<in> set (get_raster_list st)"
    by (simp add: add_calculated_raster_def Let_def)
  then obtain k where "k \<in> set [1..<Suc (raster_counter st)]"
      "raster_name_of (Suc (raster_counter st)) = raster_name_of k"
    using assms by (auto simp: names_bounded_def list_all_iff list_ex_iff)
  then show False
    using raster_name_of_inj by fastforce
qed

lemma run_store_adds:
  "fst (run_store (map (\<lambda>(e, r). Add e r) adds) (names, st)) =
     names @ map (\<lambda>k. raster_name_of (raster_counter st + k)) [1..<Suc (length adds)]"
proof (induction adds arbitrary: names st)
  case Nil
  then show ?case by simp
next
  case (Cons a adds)
  obtain e r where a: "a = (e, r)" by (cases a)
  let ?st' = "snd (add_calculated_raster e r st)"
  have c: "raster_counter ?st' = Suc (raster_counter st)"
    by (simp add: add_calculated_raster_def Let_def)
  have "fst (run_store (map (\<lambda>(e, r). Add e r) (a # adds)) (names, st)) =
          fst (run_store (map (\<lambda>(e, r). Add e r) adds)
                 (names @ [raster_name_of (Suc (raster_counter st))], ?st'))"
    by (simp add: a add_calculated_raster_def Let_def)
  also have "\<dots> = (names @ [raster_name_of (Suc (raster_counter st))]) @
          map (\<lambda>k. raster_name_of (raster_counter ?st' + k)) [1..<Suc (length adds)]"
    by (rule Cons.IH)
  also have "map (\<lambda>k. raster_name_of (raster_counter ?st' + k)) [1..<Suc (length adds)] =
          map (\<lambda>k. raster_name_of (raster_counter st + k)) (map Suc [1..<Suc (length adds)])"
    by (simp add: c)
  also have "map Suc [1..<Suc (length adds)] = [2..<Suc (Suc (length adds))]"
    by (simp add: map_Suc_upt numeral_2_eq_2)
  finally have "fst (run_store (map (\<lambda>(e, r). Add e r) (a # adds)) (names, st)) =
      names @ raster_name_of (raster_counter st + 1) #
        map (\<lambda>k. raster_name_of (raster_counter st + k)) [2..<Suc (Suc (length adds))]"
    by simp
  moreover have "[1..<Suc (length (a # adds))] = 1 # [2..<Suc (Suc (length adds))]"
    by (subst upt_rec) (simp add: numeral_2_eq_2)
  ultimately show ?case by simp
qed

lemma distinct_raster_names:
  "distinct (map (\<lambda>k. raster_name_of (c + k)) [1..<Suc n])"
  by (auto simp: distinct_map inj_on_def dest: raster_name_of_inj)

text \<open>
  C6, as stated: for every sequence of additions and clearings the counter only
  increments, and no generated name is given twice. Clearing sets the counter back to 0:
  in the session add, clear, add both rasters are named \<open>Raster 1\<close>, and the counter
  after the clearing is below the counter before it.
\<close>

theorem raster_name_reused_counterexample:
  "\<not> distinct (generated_names [Add ''R1'' (7::nat), Clear, Add ''R2'' 8])
   \<and> generated_names [Add ''R1'' (7::nat), Clear, Add ''R2'' 8] = [''Raster 1'', ''Raster 1'']
   \<and> raster_counter (store_after [Add ''R1'' (7::nat), Clear])
       < raster_counter (store_after [Add ''R1'' (7::nat)])"
  by code_simp

text \<open>
  C6, amended: an addition increments the counter by one and names the raster
  \<open>Raster N\<close> for the new counter \<open>N\<close>; a clearing empties the store and sets the counter
  back to 0. So, at any point of a session, the names generated by consecutive additions
  are \<open>Raster (c+1)\<close>, \<open>Raster (c+2)\<close>, ... for the current counter \<open>c\<close>, pairwise distinct,
  and the name an addition generates is never the name of a raster still in the store;
  after a clearing the numbering starts again at \<open>Raster 1\<close>.
\<close>

theorem raster_names_increase_until_cleared:
  "(let st = store_after ops in
      fst (run_store (map (\<lambda>(e, r). Add e r) adds) ([], st)) =
        map (\<lambda>k. raster_name_of (raster_counter st + k)) [1..<Suc (length adds)]
      \<and> distinct (map (\<lambda>k. raster_name_of (raster_counter st + k)) [1..<Suc (length adds)])
      \<and> fst (add_calculated_raster e r st) = ''Raster '' @ str_nat (raster_counter st + 1)
      \<and> fst (add_calculated_raster e r st) \<notin> set (get_raster_list st)
      \<and> raster_counter (snd (add_calculated_raster e r st)) = raster_counter st + 1
      \<and> clear_all_rasters st = init_calculator)"
proof -
  have "fst (run_store (map (\<lambda>(e, r). Add e r) adds) ([], store_after ops)) =
        map (\<lambda>k. raster_name_of (raster_counter (store_after ops) + k)) [1..<Suc (length adds)]"
    using run_store_adds[of adds "[]" "store_after ops"] by simp
  moreover have "fst (add_calculated_raster e r (store_after ops)) \<notin>
        set (get_raster_list (store_after ops))"
    by (rule add_name_fresh[OF store_after_bounded])
  moreover have "fst (add_calculated_raster e r (store_after ops)) =
        ''Raster '' @ str_nat (raster_counter (store_after ops) + 1)"
    by (simp add: add_calculated_raster_def Let_def raster_name_of_def)
  moreover have "raster_counter (snd (add_calculated_raster e r (store_after ops))) =
        raster_counter (store_after ops) + 1"
    by (simp add: add_calculated_raster_def Let_def)
  moreover have "clear_all_rasters (store_after ops) = init_calculator"
    by (simp add: clear_all_rasters_def init_calculator_def)
  ultimately show ?thesis
    using distinct_raster_names by (simp only: Let_def simp_thms)
qed

section \<open>Properties of the evaluating paths\<close>
















section \<open>Properties of the reflectance computation\<close>

lemma list_all_replicate: "list_all P (replicate n x) = (n = 0 \<or> P x)"
  by (auto simp: list_all_iff)

lemma exposure_ms_defined:
  assumes "12 \<le> length EXPO_MS"
  shows "exposure_ms expo_sliders EXPO_MS i = Inr (band_exposure expo_sliders EXPO_MS i)"
proof (cases "i < length expo_sliders")
  case False
  then show ?thesis by (simp add: exposure_ms_def band_exposure_def)
next
  case True
  have "nat (max 1 (min 12 (expo_sliders ! i)) - 1) < 12" by auto
  then have "nat (max 1 (min 12 (expo_sliders ! i)) - 1) < length EXPO_MS"
    using assms by linarith
  then show ?thesis
    using True by (simp add: exposure_ms_def band_exposure_def Let_def)
qed

lemma band_slice_shape:
  assumes "frame_shape_ok frame" and "i < 4"
  shows "length (band_slice i frame) = FRAME_H"
    and "\<And>r. r < FRAME_H \<Longrightarrow> length (band_slice i frame ! r) = FRAME_W"
    and "\<And>r c. r < FRAME_H \<Longrightarrow> c < FRAME_W \<Longrightarrow>
           band_slice i frame ! r ! c = frame ! r ! (i * FRAME_W + c)"
proof -
  have len: "length frame = FRAME_H" and rows: "\<And>r. r < FRAME_H \<Longrightarrow> length (frame ! r) = FULL_W"
    using assms(1) by (auto simp: frame_shape_ok_def list_all_length)
  show "length (band_slice i frame) = FRAME_H"
    by (simp add: band_slice_def len)
  have fit: "i * FRAME_W + FRAME_W \<le> FULL_W"
    using assms(2) by (simp add: FULL_W_def FRAME_W_def)
  show "\<And>r. r < FRAME_H \<Longrightarrow> length (band_slice i frame ! r) = FRAME_W"
    using fit by (simp add: band_slice_def len rows)
  show "\<And>r c. r < FRAME_H \<Longrightarrow> c < FRAME_W \<Longrightarrow>
           band_slice i frame ! r ! c = frame ! r ! (i * FRAME_W + c)"
    using fit by (simp add: band_slice_def len rows)
qed

lemma band_reflectance_tile:
  assumes frame: "frame_shape_ok frame" and i: "i < 4"
    and bg: "bg_tiles ! i = Some bg" and shape: "band_shape_ok bg"
  shows "\<exists>numerator.
           array_sub (as_float (band_slice i frame)) (as_float bg) = Inr numerator \<and>
           map (map (\<lambda>x. x / band_exposure expo_sliders EXPO_MS i
                            / entry_float py_float ref_cam_entries i)) numerator =
           reflectance_tile py_float frame bg_tiles expo_sliders ref_cam_entries EXPO_MS i"
proof -
  let ?cam = "as_float (band_slice i frame)"
  let ?bg = "as_float bg"
  note sl = band_slice_shape[OF frame i]
  have bglen: "length bg = FRAME_H" and bgrows: "\<And>r. r < FRAME_H \<Longrightarrow> length (bg ! r) = FRAME_W"
    using shape by (auto simp: band_shape_ok_def list_all_length)
  have "map length ?cam = map length ?bg"
    by (rule nth_equalityI) (simp_all add: as_float_def sl bglen bgrows)
  then have sub: "array_sub ?cam ?bg = Inr (map2 (map2 (-)) ?cam ?bg)"
    by (simp add: array_sub_def)
  let ?e = "band_exposure expo_sliders EXPO_MS i"
  let ?rr = "entry_float py_float ref_cam_entries i"
  have "map (map (\<lambda>x. x / ?e / ?rr)) (map2 (map2 (-)) ?cam ?bg) =
        reflectance_tile py_float frame bg_tiles expo_sliders ref_cam_entries EXPO_MS i"
  proof (rule nth_equalityI)
    show "length (map (map (\<lambda>x. x / ?e / ?rr)) (map2 (map2 (-)) ?cam ?bg)) =
          length (reflectance_tile py_float frame bg_tiles expo_sliders ref_cam_entries EXPO_MS i)"
      by (simp add: reflectance_tile_def as_float_def sl bglen)
  next
    fix r
    assume "r < length (map (map (\<lambda>x. x / ?e / ?rr)) (map2 (map2 (-)) ?cam ?bg))"
    then have r: "r < FRAME_H"
      by (simp add: as_float_def sl bglen)
    show "map (map (\<lambda>x. x / ?e / ?rr)) (map2 (map2 (-)) ?cam ?bg) ! r =
          reflectance_tile py_float frame bg_tiles expo_sliders ref_cam_entries EXPO_MS i ! r"
    proof (rule nth_equalityI)
      show "length (map (map (\<lambda>x. x / ?e / ?rr)) (map2 (map2 (-)) ?cam ?bg) ! r) =
            length (reflectance_tile py_float frame bg_tiles expo_sliders ref_cam_entries EXPO_MS i ! r)"
        using r by (simp add: reflectance_tile_def as_float_def sl bglen bgrows)
    next
      fix c
      assume "c < length (map (map (\<lambda>x. x / ?e / ?rr)) (map2 (map2 (-)) ?cam ?bg) ! r)"
      then have c: "c < FRAME_W"
        using r by (simp add: as_float_def sl bglen bgrows)
      show "map (map (\<lambda>x. x / ?e / ?rr)) (map2 (map2 (-)) ?cam ?bg) ! r ! c =
            reflectance_tile py_float frame bg_tiles expo_sliders ref_cam_entries EXPO_MS i ! r ! c"
        using r c
        by (simp add: reflectance_tile_def reflectance_pixel_def as_float_def sl bglen bgrows bg)
    qed
  qed
  then show ?thesis using sub by simp
qed

lemma reflectance_bands_all_or_nothing:
  assumes frame: "frame_shape_ok frame" and bgs: "bg_shapes_ok bg_tiles"
    and table: "12 \<le> length EXPO_MS"
  shows "list_all (\<lambda>i. i < 4) bands \<Longrightarrow>
    reflectance_bands py_float frame bg_tiles expo_sliders ref_cam_entries EXPO_MS bands acc shown =
      (if list_all (band_ready py_float bg_tiles expo_sliders ref_cam_entries EXPO_MS) bands
       then (Inr (Some (acc @ map (reflectance_tile py_float frame bg_tiles expo_sliders
                                     ref_cam_entries EXPO_MS) bands)), shown)
       else (Inr None, True))"
proof (induction bands arbitrary: acc)
  case Nil
  then show ?case by simp
next
  case (Cons i bands)
  have i: "i < 4" and rest: "list_all (\<lambda>i. i < 4) bands"
    using Cons.prems by simp_all
  have len: "length bg_tiles = 4"
    using bgs by (simp add: bg_shapes_ok_def)
  note ex = exposure_ms_defined[OF table, of expo_sliders i]
  show ?case
  proof (cases "bg_tiles ! i")
    case None
    then show ?thesis
      using i len by (simp add: band_ready_def)
  next
    case (Some bg)
    have "band_shape_ok bg"
      using bgs Some i len by (auto simp: bg_shapes_ok_def list_all_length split: option.splits)
    from band_reflectance_tile[OF frame i Some this, of expo_sliders EXPO_MS py_float ref_cam_entries]
    obtain numerator where
      sub: "array_sub (as_float (band_slice i frame)) (as_float bg) = Inr numerator" and
      tile: "map (map (\<lambda>x. x / band_exposure expo_sliders EXPO_MS i
                            / entry_float py_float ref_cam_entries i)) numerator =
           reflectance_tile py_float frame bg_tiles expo_sliders ref_cam_entries EXPO_MS i"
      by blast
    show ?thesis
    proof (cases "band_exposure expo_sliders EXPO_MS i = 0 \<or> entry_float py_float ref_cam_entries i = 0")
      case True
      then show ?thesis
        using i len Some ex by (auto simp: band_ready_def Let_def)
    next
      case False
      then have ready: "band_ready py_float bg_tiles expo_sliders ref_cam_entries EXPO_MS i"
        using Some by (simp add: band_ready_def)
      have "reflectance_bands py_float frame bg_tiles expo_sliders ref_cam_entries EXPO_MS
              (i # bands) acc shown =
            reflectance_bands py_float frame bg_tiles expo_sliders ref_cam_entries EXPO_MS bands
              (acc @ [reflectance_tile py_float frame bg_tiles expo_sliders ref_cam_entries EXPO_MS i])
              shown"
        using i len Some ex False sub tile by (simp add: Let_def)
      then show ?thesis
        using Cons.IH[OF rest] ready by simp
    qed
  qed
qed

text \<open>
  C2: for every frame of the fixed shape and every calibration state (four background
  slots holding band-shaped tiles or nothing, any sliders, any entry texts, the exposure
  table of twelve values): if for all four bands the dark-noise tile exists, the exposure
  in ms is nonzero and the reference radiance is nonzero, \<open>calculate_reflectance\<close> returns
  exactly four arrays, band by band the array of band shape whose pixel at row \<open>r\<close>,
  column \<open>c\<close> is (raw - dark noise) / exposure / reference radiance; if one of the
  preconditions fails for one band, the call returns \<open>None\<close>, never a partial list.
\<close>

theorem calculate_reflectance_all_or_nothing:
  assumes "frame_shape_ok frame" and "bg_shapes_ok bg_tiles" and "12 \<le> length EXPO_MS"
  shows "calculate_reflectance py_float (Some frame) bg_tiles expo_sliders ref_cam_entries
           EXPO_MS shown =
      (if list_all (band_ready py_float bg_tiles expo_sliders ref_cam_entries EXPO_MS) [0, 1, 2, 3]
       then (Inr (Some (map (reflectance_tile py_float frame bg_tiles expo_sliders
                               ref_cam_entries EXPO_MS) [0, 1, 2, 3])), shown)
       else (Inr None, True))"
  using reflectance_bands_all_or_nothing[OF assms, of "[0, 1, 2, 3]" py_float expo_sliders
      ref_cam_entries "[]" shown]
  by (simp add: calculate_reflectance_def)

text \<open>
  The theorem at a frame whose pixels are all 10, with background tiles whose pixels
  are all 2, the sliders at the levels 1, 4, 12 and 20, the camera's exposure table and
  the reference radiance 2 in every field: the first band's pixels are
  (10 - 2) / 0.04 / 2 = 100. With the third background tile missing the result is \<open>None\<close>.
\<close>

theorem calculate_reflectance_all_or_nothing_witness:
  "frame_shape_ok (replicate 480 (replicate 2560 (10::nat)))
   \<and> bg_shapes_ok (replicate 4 (Some (replicate 480 (replicate 640 (2::nat)))))
   \<and> 12 \<le> length CameraView_EXPO_MS
   \<and> calculate_reflectance (\<lambda>s. if s = ''2'' then Some 2 else None)
        (Some (replicate 480 (replicate 2560 10)))
        (replicate 4 (Some (replicate 480 (replicate 640 2))))
        [1, 4, 12, 20] [''2'', ''2'', ''2'', ''2''] CameraView_EXPO_MS False
      = (Inr (Some (map (reflectance_tile (\<lambda>s. if s = ''2'' then Some 2 else None)
                          (replicate 480 (replicate 2560 10))
                          (replicate 4 (Some (replicate 480 (replicate 640 2))))
                          [1, 4, 12, 20] [''2'', ''2'', ''2'', ''2''] CameraView_EXPO_MS)
                     [0, 1, 2, 3])), False)
   \<and> reflectance_pixel (\<lambda>s. if s = ''2'' then Some 2 else None)
        (replicate 480 (replicate 2560 10))
        (replicate 4 (Some (replicate 480 (replicate 640 2))))
        [1, 4, 12, 20] [''2'', ''2'', ''2'', ''2''] CameraView_EXPO_MS 0 0 0 = 100
   \<and> calculate_reflectance (\<lambda>s. if s = ''2'' then Some 2 else None)
        (Some (replicate 480 (replicate 2560 10)))
        [Some (replicate 480 (replicate 640 2)), Some (replicate 480 (replicate 640 2)),
         None, Some (replicate 480 (replicate 640 2))]
        [1, 4, 12, 20] [''2'', ''2'', ''2'', ''2''] CameraView_EXPO_MS False
      = (Inr None, True)"
proof -
  let ?pf = "\<lambda>s. if s = ''2'' then Some (2::real) else None"
  let ?F = "replicate 480 (replicate 2560 (10::nat))"
  let ?T = "replicate 480 (replicate 640 (2::nat))"
  let ?B = "replicate 4 (Some ?T)"
  let ?B' = "[Some ?T, Some ?T, None, Some ?T]"
  let ?sl = "[1, 4, 12, 20] :: int list"
  let ?en = "[''2'', ''2'', ''2'', ''2'']"
  have f: "frame_shape_ok ?F"
    by (simp add: frame_shape_ok_def FRAME_H_def FULL_W_def FRAME_W_def list_all_replicate)
  have t: "band_shape_ok ?T"
    by (simp add: band_shape_ok_def FRAME_H_def FRAME_W_def list_all_replicate)
  have b: "bg_shapes_ok ?B"
    using t by (simp add: bg_shapes_ok_def list_all_replicate)
  have b': "bg_shapes_ok ?B'"
    using t by (simp add: bg_shapes_ok_def)
  have m: "12 \<le> length CameraView_EXPO_MS"
    by (simp add: CameraView_EXPO_MS_def)
  have ready: "list_all (band_ready ?pf ?B ?sl ?en CameraView_EXPO_MS) [0, 1, 2, 3]"
    by (simp add: band_ready_def band_exposure_def exposure_ms_def entry_float_def
        CameraView_EXPO_MS_def numeral_3_eq_3 numeral_2_eq_2)
  have not_ready: "\<not> list_all (band_ready ?pf ?B' ?sl ?en CameraView_EXPO_MS) [0, 1, 2, 3]"
    by (simp add: band_ready_def)
  have px: "reflectance_pixel ?pf ?F ?B ?sl ?en CameraView_EXPO_MS 0 0 0 = 100"
    by (simp add: reflectance_pixel_def band_exposure_def exposure_ms_def entry_float_def
        CameraView_EXPO_MS_def)
  show ?thesis
    using f b m px
      calculate_reflectance_all_or_nothing[OF f b m, of ?pf ?sl ?en False]
      calculate_reflectance_all_or_nothing[OF f b' m, of ?pf ?sl ?en False]
      ready not_ready
    by (simp only: if_True if_False simp_thms)
qed

section \<open>Properties of the reference radiance estimation\<close>

lemma last_four:
  assumes "4 \<le> length xs"
  shows "drop (length xs - 4) xs =
    [xs ! (length xs - 4), xs ! (length xs - 3), xs ! (length xs - 2), xs ! (length xs - 1)]"
proof (rule nth_equalityI)
  show "length (drop (length xs - 4) xs) =
    length [xs ! (length xs - 4), xs ! (length xs - 3), xs ! (length xs - 2), xs ! (length xs - 1)]"
    using assms by simp
next
  fix i
  assume "i < length (drop (length xs - 4) xs)"
  then have "i < 4" using assms by simp
  then consider "i = 0" | "i = 1" | "i = 2" | "i = 3" by linarith
  then show "drop (length xs - 4) xs ! i =
    [xs ! (length xs - 4), xs ! (length xs - 3), xs ! (length xs - 2), xs ! (length xs - 1)] ! i"
  proof cases
    case 1
    then show ?thesis using assms by simp
  next
    case 2
    have "length xs - 4 + 1 = length xs - 3" using assms by linarith
    then show ?thesis using assms 2 by simp
  next
    case 3
    have "length xs - 4 + 2 = length xs - 2" using assms by linarith
    then show ?thesis using assms 3 by simp
  next
    case 4
    have "length xs - 4 + 3 = length xs - 1" using assms by linarith
    then show ?thesis using assms 4 by simp
  qed
qed

lemma length_four: "length xs = 4 \<Longrightarrow> \<exists>a b c d. xs = [a, b, c, d]"
  by (auto simp: length_Suc_conv numeral_eq_Suc)

lemma slice_nth:
  assumes "b \<le> length xs"
  shows "take (b - a) (drop a xs) = map (\<lambda>i. xs ! i) [a..<b]"
proof (rule nth_equalityI)
  show "length (take (b - a) (drop a xs)) = length (map (\<lambda>i. xs ! i) [a..<b])"
    using assms by simp
next
  fix i
  assume "i < length (take (b - a) (drop a xs))"
  then have "i < b - a" by simp
  then show "take (b - a) (drop a xs) ! i = map (\<lambda>i. xs ! i) [a..<b] ! i"
    using assms by simp
qed

lemma window_lower: "nat (max 0 (int n div 2 - 100 div 2)) = fst (centred_window n)"
  by (simp add: centred_window_def; linarith?)

lemma window_width:
  "nat (min (int n) (int n div 2 + 100 div 2) - max 0 (int n div 2 - 100 div 2)) =
   snd (centred_window n) - fst (centred_window n)"
  by (simp add: centred_window_def; linarith?)

lemma window_upper: "snd (centred_window n) \<le> n"
  by (simp add: centred_window_def)

lemma center_roi_window:
  assumes "rectangular tile"
  shows "concat (center_roi tile) = window_pixels tile"
proof -
  let ?h = "fst (shape tile)" and ?w = "snd (shape tile)"
  let ?y1 = "fst (centred_window ?h)" and ?y2 = "snd (centred_window ?h)"
  let ?x1 = "fst (centred_window ?w)" and ?x2 = "snd (centred_window ?w)"
  have h: "?h = length tile" by (simp add: shape_def)
  have rows: "\<And>r. r < length tile \<Longrightarrow> length (tile ! r) = ?w"
    using assms by (simp add: rectangular_def list_all_length)
  have "center_roi tile =
          map (\<lambda>row. take (?x2 - ?x1) (drop ?x1 row)) (take (?y2 - ?y1) (drop ?y1 tile))"
    by (simp only: center_roi_def Let_def window_lower window_width)
  also have "take (?y2 - ?y1) (drop ?y1 tile) = map (\<lambda>r. tile ! r) [?y1..<?y2]"
    using window_upper[of ?h] by (intro slice_nth) (simp add: h)
  also have "map (\<lambda>row. take (?x2 - ?x1) (drop ?x1 row)) (map (\<lambda>r. tile ! r) [?y1..<?y2]) =
             map (\<lambda>r. map (\<lambda>c. tile ! r ! c) [?x1..<?x2]) [?y1..<?y2]"
  proof -
    have "\<And>r. r \<in> set [?y1..<?y2] \<Longrightarrow>
            take (?x2 - ?x1) (drop ?x1 (tile ! r)) = map (\<lambda>c. tile ! r ! c) [?x1..<?x2]"
    proof -
      fix r
      assume "r \<in> set [?y1..<?y2]"
      then have "r < length tile"
        using window_upper[of ?h] by (simp add: h)
      then have "?x2 \<le> length (tile ! r)"
        using window_upper[of ?w] by (simp add: rows)
      then show "take (?x2 - ?x1) (drop ?x1 (tile ! r)) = map (\<lambda>c. tile ! r ! c) [?x1..<?x2]"
        by (rule slice_nth)
    qed
    then show ?thesis by simp
  qed
  finally show ?thesis by (simp add: window_pixels_def)
qed

lemma roi_mean_window:
  assumes "rectangular tile"
  shows "roi_mean (center_roi tile) = window_mean tile"
  by (simp add: roi_mean_def window_mean_def Let_def center_roi_window[OF assms])

lemma radiance_step:
  assumes "rectangular tile"
  shows "(roi_mean (center_roi tile) - bg_val) / exposure_divisor token =
         (window_mean tile - bg_val) / (if token = 0 then 1 else real_of_int token / 100)"
  by (simp add: exposure_divisor_def roi_mean_window[OF assms])

lemma radiance_bands_four:
  assumes "length ref_tiles = 4" and "length ref_cam_entries = 4" and "length tokens = 4"
    and "tiles_rectangular ref_tiles"
  shows "radiance_bands py_float ref_tiles bg_cam_entries tokens [0, 1, 2, 3] ref_cam_entries =
    Inr (map (\<lambda>i. case ref_tiles ! i of
                    None \<Rightarrow> ref_cam_entries ! i
                  | Some tile \<Rightarrow>
                      TwoDecimals (reference_radiance py_float tile bg_cam_entries (tokens ! i) i))
           [0, 1, 2, 3])"
proof -
  obtain t0 t1 t2 t3 where t: "ref_tiles = [t0, t1, t2, t3]"
    using length_four[OF assms(1)] by blast
  obtain a0 a1 a2 a3 where a: "ref_cam_entries = [a0, a1, a2, a3]"
    using length_four[OF assms(2)] by blast
  obtain e0 e1 e2 e3 where e: "tokens = [e0, e1, e2, e3]"
    using length_four[OF assms(3)] by blast
  have rect: "\<And>tile. t0 = Some tile \<or> t1 = Some tile \<or> t2 = Some tile \<or> t3 = Some tile \<Longrightarrow>
                rectangular tile"
    using assms(4) unfolding t by (auto simp: tiles_rectangular_def)
  show ?thesis
    unfolding t a e
    by (simp add: reference_radiance_def radiance_step rect Let_def numeral_3_eq_3 numeral_2_eq_2
        split: option.splits)
qed

text \<open>
  C8: when the estimation runs (four labels and fields, a path in the path field, a file
  name of at least six underscore-separated tokens whose last four are integers), then
  for each band with a loaded reference tile the radiance written to the band's field is
  (mean of the centred 100 x 100 region, clamped to the tile, - the band's dark-noise
  value) / (the band's exposure token / 100.0), with the divisor 1.0 for the token 0;
  the fields of bands without a tile are left as they are. The region is the one of
  \<open>window_mean\<close>: the pixels whose row lies within 50 of the middle row and whose column
  lies within 50 of the middle column, cut off at the tile's edges; for a band-shaped
  tile these are the rows 190..289 and the columns 270..369. The dark-noise value is the
  number in the band's background field, 0.0 where the text is not a number.
\<close>

theorem estimate_reference_radiance_formula:
  assumes "n_labels = 4" and "length ref_cam_entries = 4" and "length ref_tiles = 4"
    and "tiles_rectangular ref_tiles"
    and "strip ref_entry \<noteq> []"
    and "6 \<le> length (split_on CHR ''_'' (root_name (strip ref_entry)))"
    and "map py_int (exposure_tokens root_name ref_entry) = map Some tokens"
  shows "estimate_reference_radiance py_float py_int root_name ref_tiles ref_entry n_labels
           ref_cam_entries bg_cam_entries =
         Inr (Estimated,
              map (\<lambda>i. case ref_tiles ! i of
                          None \<Rightarrow> ref_cam_entries ! i
                        | Some tile \<Rightarrow>
                            TwoDecimals
                              ((window_mean tile - entry_float py_float bg_cam_entries i)
                                / (if tokens ! i = 0 then 1 else real_of_int (tokens ! i) / 100)))
                [0, 1, 2, 3])
    \<and> centred_window FRAME_H = (190, 290) \<and> centred_window FRAME_W = (270, 370)"
proof (intro conjI)
  let ?parts = "split_on CHR ''_'' (root_name (strip ref_entry))"
  let ?n = "length ?parts"
  have four: "4 \<le> ?n" using assms(6) by simp
  have toks: "exposure_tokens root_name ref_entry =
      [?parts ! (?n - 4), ?parts ! (?n - 3), ?parts ! (?n - 2), ?parts ! (?n - 1)]"
    unfolding exposure_tokens_def Let_def by (rule last_four[OF four])
  have len: "length tokens = 4"
  proof -
    have "length (map Some tokens) = length (map py_int (exposure_tokens root_name ref_entry))"
      using assms(7) by simp
    then show ?thesis by (simp add: toks)
  qed
  then obtain e0 e1 e2 e3 where e: "tokens = [e0, e1, e2, e3]"
    using length_four by blast
  have parsed: "py_int (?parts ! (?n - 4)) = Some e0" "py_int (?parts ! (?n - 3)) = Some e1"
    "py_int (?parts ! (?n - 2)) = Some e2" "py_int (?parts ! (?n - 1)) = Some e3"
    using assms(7) unfolding toks e by simp_all
  have loop: "radiance_bands py_float ref_tiles bg_cam_entries [e0, e1, e2, e3] [0, 1, 2, 3]
      ref_cam_entries =
    Inr (map (\<lambda>i. case ref_tiles ! i of
                    None \<Rightarrow> ref_cam_entries ! i
                  | Some tile \<Rightarrow>
                      TwoDecimals
                        (reference_radiance py_float tile bg_cam_entries ([e0, e1, e2, e3] ! i) i))
           [0, 1, 2, 3])"
    by (rule radiance_bands_four[OF assms(3) assms(2) _ assms(4)]) simp
  have "\<not> ?n < 6" using assms(6) by simp
  then have "estimate_reference_radiance py_float py_int root_name ref_tiles ref_entry
        n_labels ref_cam_entries bg_cam_entries =
      (case radiance_bands py_float ref_tiles bg_cam_entries [e0, e1, e2, e3] [0, 1, 2, 3]
              ref_cam_entries of
         Inl e \<Rightarrow> Inl e
       | Inr entries \<Rightarrow> Inr (Estimated, entries))"
    using assms(1,2,5) parsed
    by (simp add: estimate_reference_radiance_def Let_def del: radiance_bands.simps)
  also have "\<dots> = Inr (Estimated,
      map (\<lambda>i. case ref_tiles ! i of
                  None \<Rightarrow> ref_cam_entries ! i
                | Some tile \<Rightarrow>
                    TwoDecimals
                      (reference_radiance py_float tile bg_cam_entries ([e0, e1, e2, e3] ! i) i))
        [0, 1, 2, 3])"
    by (simp only: loop sum.case)
  finally show "estimate_reference_radiance py_float py_int root_name ref_tiles ref_entry n_labels
           ref_cam_entries bg_cam_entries =
         Inr (Estimated,
              map (\<lambda>i. case ref_tiles ! i of
                          None \<Rightarrow> ref_cam_entries ! i
                        | Some tile \<Rightarrow>
                            TwoDecimals
                              ((window_mean tile - entry_float py_float bg_cam_entries i)
                                / (if tokens ! i = 0 then 1 else real_of_int (tokens ! i) / 100)))
                [0, 1, 2, 3])"
    by (simp add: e reference_radiance_def cong: option.case_cong)
next
  show "centred_window FRAME_H = (190, 290)"
    by (simp add: centred_window_def FRAME_H_def)
next
  show "centred_window FRAME_W = (270, 370)"
    by (simp add: centred_window_def FRAME_W_def)
qed

lemma shape_replicate_append:
  "0 < n \<Longrightarrow> shape (replicate n row @ rest) = (n + length rest, length row)"
  by (cases n) (simp_all add: shape_def)

lemma concat_replicate_replicate: "concat (replicate n (replicate m x)) = replicate (n * m) x"
  by (induction n) (simp_all add: replicate_add)

lemma drop_replicate_append: "drop n (replicate n x @ ys) = ys"
  by simp

lemma take_replicate_append: "take n (replicate n x @ ys) = replicate n x"
  by simp

lemma take_two_replicates:
  "take (m + n) (replicate m x @ replicate n y @ ys) = replicate m x @ replicate n y"
  by simp

lemma center_roi_band:
  assumes "shape tile = (480, 640)"
  shows "center_roi tile = map (\<lambda>row. take 100 (drop 270 row)) (take 100 (drop 190 tile))"
proof -
  have "center_roi tile =
      map (\<lambda>row. take (snd (centred_window 640) - fst (centred_window 640))
                   (drop (fst (centred_window 640)) row))
        (take (snd (centred_window 480) - fst (centred_window 480))
           (drop (fst (centred_window 480)) tile))"
    by (simp only: center_roi_def Let_def assms fst_conv snd_conv window_lower window_width)
  then show ?thesis
    by (simp add: centred_window_def)
qed

lemma mean_of_replicates:
  "roi_mean (replicate 100 (replicate 100 v)) = real v"
  by (simp add: roi_mean_def concat_replicate_replicate sum_list_replicate)

lemma tile_bright_centre_mean:
  "rectangular tile_bright_centre" "window_mean tile_bright_centre = 80"
proof -
  have sh: "shape tile_bright_centre = (480, 640)"
    by (simp add: tile_bright_centre_def shape_replicate_append)
  show rect: "rectangular tile_bright_centre"
    unfolding rectangular_def sh by (simp add: tile_bright_centre_def list_all_iff)
  have rows: "take 100 (drop 190 tile_bright_centre) =
      replicate 100 (replicate 270 0 @ replicate 100 80 @ replicate 270 0)"
    unfolding tile_bright_centre_def
    by (simp only: drop_replicate_append take_replicate_append)
  have cols: "take 100 (drop 270 (replicate 270 0 @ replicate 100 80 @ replicate 270 (0::nat))) =
      replicate 100 80"
    by (simp only: drop_replicate_append take_replicate_append)
  have roi: "center_roi tile_bright_centre = replicate 100 (replicate 100 80)"
    by (simp only: center_roi_band[OF sh] rows map_replicate cols)
  show "window_mean tile_bright_centre = 80"
    unfolding roi_mean_window[OF rect, symmetric] roi mean_of_replicates by simp
qed

lemma tile_flat_mean: "rectangular tile_flat" "window_mean tile_flat = 7"
proof -
  have sh: "shape tile_flat = (480, 640)"
    using shape_replicate_append[of 480 "replicate 640 7" "[]"] by (simp add: tile_flat_def)
  show rect: "rectangular tile_flat"
    unfolding rectangular_def sh by (simp add: tile_flat_def list_all_iff)
  have roi: "center_roi tile_flat = replicate 100 (replicate 100 7)"
    unfolding center_roi_band[OF sh] by (simp add: tile_flat_def)
  show "window_mean tile_flat = 7"
    unfolding roi_mean_window[OF rect, symmetric] roi mean_of_replicates by simp
qed

lemma tile_two_halves_mean: "rectangular tile_two_halves" "window_mean tile_two_halves = 50"
proof -
  have sh: "shape tile_two_halves = (480, 640)"
    by (simp add: tile_two_halves_def shape_replicate_append)
  show rect: "rectangular tile_two_halves"
    unfolding rectangular_def sh by (simp add: tile_two_halves_def list_all_iff)
  have sum: "(50::nat) + 50 = 100" by simp
  have both: "take (50 + 50) (drop 190 tile_two_halves) =
      replicate 50 (replicate 640 60) @ replicate 50 (replicate 640 40)"
    unfolding tile_two_halves_def
    by (simp only: drop_replicate_append take_two_replicates)
  have rows: "take 100 (drop 190 tile_two_halves) =
      replicate 50 (replicate 640 60) @ replicate 50 (replicate 640 40)"
    using both unfolding sum .
  have cols: "\<And>v::nat. take 100 (drop 270 (replicate 640 v)) = replicate 100 v"
    by simp
  have roi: "center_roi tile_two_halves =
      replicate 50 (replicate 100 60) @ replicate 50 (replicate 100 40)"
    by (simp only: center_roi_band[OF sh] rows map_append map_replicate cols)
  have "roi_mean (replicate 50 (replicate 100 60) @ replicate 50 (replicate 100 40)) = 50"
    by (simp add: roi_mean_def concat_replicate_replicate sum_list_replicate)
  then show "window_mean tile_two_halves = 50"
    unfolding roi_mean_window[OF rect, symmetric] roi by simp
qed

text \<open>
  The theorem at the reference file \<open>ref_20240101_120000_100_200_0_450.png\<close> with
  band-shaped tiles for the bands 1, 3 and 4. Band 1 is 80 inside the region and 0
  outside it, so the region's mean is 80 (the mean of the whole tile is below 3); with
  the dark noise 5 and the token 100 the radiance is (80 - 5) / 1.0 = 75. Band 3 has the
  token 0 and a background field that is not a number, hence (7 - 0) / 1.0 = 7. Band 4
  has the region's mean 50 and the token 450, hence (50 - 5) / 4.5 = 10. The field of
  band 2 keeps its text.
\<close>

theorem estimate_reference_radiance_formula_witness:
  "tiles_rectangular [Some tile_bright_centre, None, Some tile_flat, Some tile_two_halves]
   \<and> strip ''  ref_20240101_120000_100_200_0_450.png '' \<noteq> []
   \<and> 6 \<le> length (split_on CHR ''_''
           (takeWhile (\<lambda>c. c \<noteq> CHR ''.'') (strip ''  ref_20240101_120000_100_200_0_450.png '')))
   \<and> map (\<lambda>s. Some (int (nat_of_digits s)))
        (exposure_tokens (takeWhile (\<lambda>c. c \<noteq> CHR ''.''))
           ''  ref_20240101_120000_100_200_0_450.png '')
      = map Some [100, 200, 0, 450]
   \<and> estimate_reference_radiance (\<lambda>s. if s = ''5.00'' then Some 5 else None)
        (\<lambda>s. Some (int (nat_of_digits s))) (takeWhile (\<lambda>c. c \<noteq> CHR ''.''))
        [Some tile_bright_centre, None, Some tile_flat, Some tile_two_halves]
        ''  ref_20240101_120000_100_200_0_450.png '' 4
        [FieldText ''a'', FieldText ''b'', FieldText ''c'', FieldText ''d'']
        [''5.00'', ''5.00'', ''dark'', ''5.00'']
      = Inr (Estimated, [TwoDecimals 75, FieldText ''b'', TwoDecimals 7, TwoDecimals 10])"
proof -
  let ?entry = "''  ref_20240101_120000_100_200_0_450.png ''"
  let ?root = "takeWhile (\<lambda>c. c \<noteq> CHR ''.'')"
  let ?int = "\<lambda>s. Some (int (nat_of_digits s))"
  let ?float = "\<lambda>s. if s = ''5.00'' then Some (5::real) else None"
  let ?tiles = "[Some tile_bright_centre, None, Some tile_flat, Some tile_two_halves]"
  let ?fields = "[FieldText ''a'', FieldText ''b'', FieldText ''c'', FieldText ''d'']"
  have h0: "tiles_rectangular ?tiles"
    by (simp add: tiles_rectangular_def tile_bright_centre_mean(1) tile_flat_mean(1)
        tile_two_halves_mean(1))
  have h1: "strip ?entry \<noteq> []" by code_simp
  have h2: "6 \<le> length (split_on CHR ''_'' (?root (strip ?entry)))" by code_simp
  have h3: "map ?int (exposure_tokens ?root ?entry) = map Some [100, 200, 0, 450]" by code_simp
  have "estimate_reference_radiance ?float ?int ?root ?tiles ?entry 4 ?fields
          [''5.00'', ''5.00'', ''dark'', ''5.00'']
        = Inr (Estimated, [TwoDecimals 75, FieldText ''b'', TwoDecimals 7, TwoDecimals 10])"
    using estimate_reference_radiance_formula[OF refl _ _ h0 h1 h2 h3,
        of ?fields ?float "[''5.00'', ''5.00'', ''dark'', ''5.00'']"]
    by (simp add: tile_bright_centre_mean(2) tile_flat_mean(2) tile_two_halves_mean(2)
        entry_float_def)
  then show ?thesis using h0 h1 h2 h3 by (intro conjI)
qed

section \<open>Properties of the automatic estimation\<close>

lemma ratio_test_set:
  "set (ratio_test matches) =
     {m. \<exists>n. [m, n] \<in> set matches \<and> distance m < 0.75 * distance n}"
proof (induction matches)
  case Nil
  then show ?case by simp
next
  case (Cons m_n matches)
  show ?case
  proof (cases m_n)
    case Nil
    then show ?thesis using Cons by auto
  next
    case c1: (Cons m rest)
    show ?thesis
    proof (cases rest)
      case Nil
      then show ?thesis using Cons c1 by auto
    next
      case c2: (Cons n rest2)
      show ?thesis
      proof (cases rest2)
        case Nil
        then show ?thesis using Cons c1 c2 by auto
      next
        case (Cons x rest3)
        then show ?thesis using Cons.IH c1 c2 by auto
      qed
    qed
  qed
qed

lemma points_at_in_range:
  "list_all (\<lambda>j. j < length kp) js \<Longrightarrow> points_at kp js = Inr (map (\<lambda>j. kp ! j) js)"
  by (induction js) simp_all

lemma estimate_bands_steps:
  assumes "list_all (\<lambda>i. i - 1 < length images \<and> matcher_returns lib images i \<and>
                          indices_in_range lib images i) bands"
  shows "estimate_bands lib images (fst (detect lib (images ! 0))) (snd (detect lib (images ! 0)))
           return_matches bands est =
         Inr (foldl (band_step lib images return_matches) est bands)"
  using assms
proof (induction bands arbitrary: est)
  case Nil
  then show ?case by simp
next
  case (Cons i bands)
  let ?kp_ref = "fst (detect lib (images ! 0))"
  let ?kp_target = "fst (detect lib (images ! (i - 1)))"
  let ?good = "band_good lib images i"
  have i: "i - 1 < length images" and ret: "matcher_returns lib images i"
    and rng: "indices_in_range lib images i"
    and rest: "list_all (\<lambda>i. i - 1 < length images \<and> matcher_returns lib images i \<and>
                               indices_in_range lib images i) bands"
    using Cons.prems by simp_all
  from ret obtain matches where m: "band_matches lib images i = Inr matches"
    by (auto simp: matcher_returns_def split: sum.splits)
  then have good: "?good = ratio_test matches"
    by (simp add: band_good_def)
  have km: "knn_match lib (snd (detect lib (images ! (i - 1)))) (snd (detect lib (images ! 0))) =
            Inr matches"
    using m by (simp add: band_matches_def)
  have src: "points_at ?kp_target (map queryIdx (ratio_test matches)) =
             Inr (band_src_pts lib images i)"
    using rng unfolding good
    by (simp add: points_at_in_range indices_in_range_def list_all_iff band_src_pts_def comp_def
        good)
  have dst: "points_at ?kp_ref (map trainIdx (ratio_test matches)) =
             Inr (band_dst_pts lib images i)"
    using rng unfolding good
    by (simp add: points_at_in_range indices_in_range_def list_all_iff band_dst_pts_def comp_def
        good)
  have step: "estimate_bands lib images ?kp_ref (snd (detect lib (images ! 0))) return_matches
                (i # bands) est =
              estimate_bands lib images ?kp_ref (snd (detect lib (images ! 0))) return_matches
                bands (band_step lib images return_matches est i)"
  proof (cases "4 \<le> length (ratio_test matches)")
    case True
    then show ?thesis
      using i km src dst
      by (simp add: good case_prod_beta Let_def band_step_def band_result_def band_info_def
          band_estimate_def)
  next
    case False
    then show ?thesis
      using i km
      by (simp add: good case_prod_beta Let_def band_step_def band_result_def band_info_def)
  qed
  show ?case
    unfolding step using Cons.IH[OF rest] by simp
qed

lemma matcher_error_propagates:
  assumes "1 < length images" and "band_matches lib images 2 = Inl e"
  shows "automatic_transformation_estimation lib matrices images return_matches = Inl e"
proof -
  have "knn_match lib (snd (detect lib (images ! Suc 0))) (snd (detect lib (images ! 0))) = Inl e"
    using assms(2) by (simp add: band_matches_def)
  moreover have "images \<noteq> []" using assms(1) by auto
  ultimately show ?thesis
    using assms(1) by (simp add: automatic_transformation_estimation_def case_prod_beta)
qed

lemma homography_keys:
  "homography_key 2 = ''H_21''" "homography_key 3 = ''H_31''" "homography_key 4 = ''H_41''"
  by code_simp+

lemma matches_keys:
  "matches_key 2 = ''matches_21''" "matches_key 3 = ''matches_31''"
  "matches_key 4 = ''matches_41''"
  by code_simp+

text \<open>
  Where the matcher returns for every target band (and names detected keypoints), each
  band is handled on its own and the call returns a result for all three: the accepted
  matches of a band are the best matches whose distance is below 0.75 of the second-best;
  the estimator is run on them only when there are at least 4; the homography recorded
  for the band, in the returned dictionary and in the engine, is the estimator's answer
  in that case and \<open>None\<close> otherwise.
\<close>

lemma automatic_estimation_floor:
  assumes "4 \<le> length images"
    and "list_all (matcher_returns lib images) [2, 3, 4]"
    and "list_all (indices_in_range lib images) [2, 3, 4]"
  shows "automatic_transformation_estimation lib matrices images return_matches =
      Inr ([(''H_21'', Homography (band_result lib images 2)),
            (''H_31'', Homography (band_result lib images 3)),
            (''H_41'', Homography (band_result lib images 4))] @
           (if return_matches
            then [(''matches_21'', Matches (band_info lib images 2)),
                  (''matches_31'', Matches (band_info lib images 3)),
                  (''matches_41'', Matches (band_info lib images 4))]
            else []),
           dict_set ''H_41'' (band_result lib images 4)
             (dict_set ''H_31'' (band_result lib images 3)
                (dict_set ''H_21'' (band_result lib images 2) matrices)))"
proof -
  have bands: "list_all (\<lambda>i. i - 1 < length images \<and> matcher_returns lib images i \<and>
                               indices_in_range lib images i) [2, 3, 4]"
    using assms by simp
  have ne: "length images \<noteq> 0" using assms(1) by auto
  note loop = estimate_bands_steps[OF bands, of return_matches
      "\<lparr>results = [], matches_data = [], homography_matrices = matrices\<rparr>"]
  show ?thesis
    unfolding automatic_transformation_estimation_def
    using ne
    by (simp add: case_prod_beta loop band_step_def homography_keys matches_keys dict_update_def
        del: estimate_bands.simps)
qed

lemma band_result_floor:
  "(length (band_good lib images i) < 4 \<longrightarrow> band_result lib images i = None)
   \<and> (band_estimate lib images i = None \<longrightarrow> band_result lib images i = None)
   \<and> (band_result lib images i \<noteq> None \<longrightarrow>
         4 \<le> length (band_good lib images i)
         \<and> band_result lib images i = band_estimate lib images i)"
  by (simp add: band_result_def)

lemma automatic_estimation_floor_example:
  "automatic_transformation_estimation stub_cv2 init_matrices [7, 2, 3, 4] False =
       Inr ([(''H_21'', Homography (Some ''H'')), (''H_31'', Homography None),
             (''H_41'', Homography None)],
            [(''H_21'', Some ''H''), (''H_31'', None), (''H_41'', None)])"
proof -
  let ?images = "[7, 2, 3, 4 :: nat]"
  have h1: "4 \<le> length ?images" by simp
  have m2: "band_matches stub_cv2 ?images 2 = Inr (map unambiguous [0, 1, 2, 3, 4] @ [ambiguous 2])"
    by (simp add: band_matches_def stub_cv2_def)
  have m3: "band_matches stub_cv2 ?images 3 =
      Inr (map unambiguous [0, 1, 2] @ [ambiguous 3, ambiguous 4])"
    by (simp add: band_matches_def stub_cv2_def)
  have m4: "band_matches stub_cv2 ?images 4 = Inr (map unambiguous [0, 1, 2, 3])"
    by (simp add: band_matches_def stub_cv2_def)
  have g2: "band_good stub_cv2 ?images 2 = map (\<lambda>m. hd (unambiguous m)) [0, 1, 2, 3, 4]"
    by (simp add: band_good_def m2 unambiguous_def ambiguous_def)
  have g3: "band_good stub_cv2 ?images 3 = map (\<lambda>m. hd (unambiguous m)) [0, 1, 2]"
    by (simp add: band_good_def m3 unambiguous_def ambiguous_def)
  have g4: "band_good stub_cv2 ?images 4 = map (\<lambda>m. hd (unambiguous m)) [0, 1, 2, 3]"
    by (simp add: band_good_def m4 unambiguous_def ambiguous_def)
  have h2: "list_all (matcher_returns stub_cv2 ?images) [2, 3, 4]"
    by (simp add: matcher_returns_def m2 m3 m4)
  have h3: "list_all (indices_in_range stub_cv2 ?images) [2, 3, 4]"
    by (simp add: indices_in_range_def g2 g3 g4) (simp add: stub_cv2_def unambiguous_def)
  have r2: "band_result stub_cv2 ?images 2 = Some ''H''"
    by (simp add: band_result_def band_estimate_def band_src_pts_def band_dst_pts_def g2)
      (simp add: stub_cv2_def)
  have r3: "band_result stub_cv2 ?images 3 = None"
    by (simp add: band_result_def g3)
  have r4: "band_result stub_cv2 ?images 4 = None"
    by (simp add: band_result_def band_estimate_def band_src_pts_def band_dst_pts_def g4)
      (simp add: stub_cv2_def)
  show ?thesis
    using automatic_estimation_floor[OF h1 h2 h3, of init_matrices False]
    by (simp add: r2 r3 r4 init_matrices_def)
qed

text \<open>
  C5: in the automatic path a band with fewer than 4 accepted matches, or one on which the
  estimator fails, is recorded as \<open>None\<close> and the call still returns for the other bands,
  without crashing. The floor and the estimator's failure are handled as claimed wherever
  the matcher returns. The call itself is not protected: the loop calls the matcher with
  no test of the descriptors and no handler, unlike the helper \<open>match_features\<close>, so an
  error of the matcher ends the whole call. Here the reference band is featureless (no
  keypoints, no descriptors) and the target bands are textured: the matcher raises on the
  first target band, the call raises with it, and no band gets a result.
\<close>

theorem automatic_estimation_raises_on_featureless_reference:
  "automatic_transformation_estimation stub_cv2 init_matrices [0, 2, 3, 4] False = Inl Cv2Error"
  by (simp add: automatic_transformation_estimation_def stub_cv2_def)

section \<open>Properties of the configuration file\<close>

lemma split_on_no_sep: "c \<notin> set p \<Longrightarrow> split_on c p = [p]"
  by (induction p) auto

lemma split_on_append_sep: "c \<notin> set p \<Longrightarrow> split_on c (p @ c # rest) = p # split_on c rest"
  by (induction p) auto

lemma join_Cons: "parts \<noteq> [] \<Longrightarrow> join [c] (p # parts) = p @ c # join [c] parts"
  by (cases parts) (simp_all add: join_def)

lemma split_join:
  "parts \<noteq> [] \<Longrightarrow> list_all (\<lambda>p. c \<notin> set p) parts \<Longrightarrow> split_on c (join [c] parts) = parts"
proof (induction parts rule: list_nonempty_induct)
  case (single p)
  then show ?case by (simp add: join_def split_on_no_sep)
next
  case (cons p parts)
  then show ?case by (simp add: join_Cons split_on_append_sep)
qed

lemma sep_in_join: "2 \<le> length parts \<Longrightarrow> c \<in> set (join [c] parts)"
  by (cases parts; cases "tl parts") (auto simp: join_def)

lemma all_some_reparse:
  "list_all (reparses py_str py_parse close) xs \<Longrightarrow>
   \<exists>ys. all_some (map py_parse (map py_str xs)) = Some ys \<and> list_all2 close xs ys"
proof (induction xs)
  case Nil
  then show ?case by simp
next
  case (Cons x xs)
  then obtain ys where ys: "all_some (map py_parse (map py_str xs)) = Some ys" "list_all2 close xs ys"
    by auto
  from Cons.prems obtain y where y: "py_parse (py_str x) = Some y" "close x y"
    by (auto simp: reparses_def split: option.splits)
  show ?case using ys y by simp
qed

lemma is_3x3_rows:
  assumes "is_3x3 H"
  obtains r1 r2 r3 where "H = [r1, r2, r3]" "length r1 = 3" "length r2 = 3" "length r3 = 3"
proof -
  from assms have "length H = 3" by (simp add: is_3x3_def)
  then obtain r1 r2 r3 where H: "H = [r1, r2, r3]"
    by (auto simp: length_Suc_conv numeral_eq_Suc)
  with assms have "length r1 = 3" "length r2 = 3" "length r3 = 3"
    by (simp_all add: is_3x3_def)
  with H show ?thesis by (rule that)
qed

lemma parse_saved_matrix:
  assumes sq: "is_3x3 H" and rp: "list_all (list_all (reparses py_str py_parse close)) H"
  shows "\<exists>H'. parse_matrix py_parse (join '','' (map py_str (concat H))) = Inr H' \<and>
              list_all2 (list_all2 close) H H'"
proof -
  from sq obtain r1 r2 r3 where H: "H = [r1, r2, r3]"
    and l: "length r1 = 3" "length r2 = 3" "length r3 = 3"
    by (rule is_3x3_rows)
  let ?xs = "concat H"
  have all: "list_all (reparses py_str py_parse close) ?xs"
    using rp by (auto simp: list_all_iff)
  have len: "length ?xs = 9" using H l by simp
  have ne: "map py_str ?xs \<noteq> []" using H l by auto
  have nocomma: "list_all (\<lambda>p. CHR '','' \<notin> set p) (map py_str ?xs)"
    using all by (auto simp: list_all_iff reparses_def)
  have split: "split_on CHR '','' (join '','' (map py_str ?xs)) = map py_str ?xs"
    using split_join[OF ne nocomma] by simp
  obtain ys where ys: "all_some (map py_parse (map py_str ?xs)) = Some ys"
    and cl: "list_all2 close ?xs ys"
    using all_some_reparse[OF all] by blast
  have ly: "length ys = 9" using cl len by (simp add: list_all2_lengthD[symmetric])
  have cl': "list_all2 close (r1 @ r2 @ r3) ys" using cl H by simp
  then obtain u1 rest where u1: "ys = u1 @ rest" "list_all2 close r1 u1"
    "list_all2 close (r2 @ r3) rest"
    by (auto simp: list_all2_append1)
  then obtain u2 u3 where u2: "rest = u2 @ u3" "list_all2 close r2 u2" "list_all2 close r3 u3"
    by (auto simp: list_all2_append1)
  have lu: "length u1 = 3" "length u2 = 3" "length u3 = 3"
    using u1(2) u2(2,3) l by (simp_all add: list_all2_lengthD[symmetric])
  have rows: "[take 3 ys, take 3 (drop 3 ys), take 3 (drop 6 ys)] = [u1, u2, u3]"
    using u1(1) u2(1) lu by simp
  have "parse_matrix py_parse (join '','' (map py_str ?xs)) =
        Inr [take 3 ys, take 3 (drop 3 ys), take 3 (drop 6 ys)]"
    unfolding parse_matrix_def split ys using ly by simp
  then have "parse_matrix py_parse (join '','' (map py_str ?xs)) = Inr [u1, u2, u3]"
    by (simp only: rows)
  moreover have "list_all2 (list_all2 close) H [u1, u2, u3]"
    using H u1(2) u2(2,3) by simp
  ultimately show ?thesis by blast
qed

lemma saved_matrix_not_None:
  assumes "is_3x3 H"
  shows "join '','' (map py_str (concat H)) \<noteq> ''None''"
proof
  assume eq: "join '','' (map py_str (concat H)) = ''None''"
  from assms obtain r1 r2 r3 where H: "H = [r1, r2, r3]"
    and l: "length r1 = 3" "length r2 = 3" "length r3 = 3"
    by (rule is_3x3_rows)
  have "2 \<le> length (map py_str (concat H))" using H l by simp
  then have "CHR '','' \<in> set (join '','' (map py_str (concat H)))"
    by (rule sep_in_join)
  then show False unfolding eq by simp
qed

lemma save_config_ini_sections:
  "save_config_ini py_str matrices =
     map (\<lambda>key. (key, [(''matrix'',
            case matrix_get matrices key of
              Some H \<Rightarrow> join '','' (map py_str (concat H))
            | None \<Rightarrow> ''None'')]))
       [''H_11'', ''H_21'', ''H_31'', ''H_41'']"
  by (simp add: save_config_ini_def save_section_def split: option.splits)

lemma load_key_saved:
  assumes "key \<in> set target_keys" and "storable py_str py_parse close (matrix_get matrices key)"
  shows "\<exists>v. load_key py_parse (save_config_ini py_str matrices) key = Inr v \<and>
             same_matrix close (matrix_get matrices key) v"
proof -
  have sec: "dict_get (save_config_ini py_str matrices) key =
      Some [(''matrix'', case matrix_get matrices key of
              Some H \<Rightarrow> join '','' (map py_str (concat H)) | None \<Rightarrow> ''None'')]"
    using assms(1) by (auto simp: save_config_ini_sections dict_get_def target_keys_def)
  show ?thesis
  proof (cases "matrix_get matrices key")
    case None
    then show ?thesis
      using sec by (simp add: load_key_def dict_get_def same_matrix_def)
  next
    case (Some H)
    then have sq: "is_3x3 H" and rp: "list_all (list_all (reparses py_str py_parse close)) H"
      using assms(2) by (simp_all add: storable_def)
    obtain H' where H': "parse_matrix py_parse (join '','' (map py_str (concat H))) = Inr H'"
      "list_all2 (list_all2 close) H H'"
      using parse_saved_matrix[OF sq rp] by blast
    show ?thesis
      using sec Some H' saved_matrix_not_None[OF sq, of py_str]
      by (simp add: load_key_def dict_get_def same_matrix_def)
  qed
qed

lemma load_keys_ok:
  "list_all (\<lambda>k. load_key py_parse config k = Inr (v k)) keys \<Longrightarrow>
   load_keys py_parse config keys (res, m) =
     (Inr (foldl (\<lambda>d k. dict_set k (v k) d) res keys), foldl (\<lambda>d k. dict_set k (v k) d) m keys)"
proof (induction keys arbitrary: res m)
  case Nil
  then show ?case by simp
next
  case (Cons key keys)
  then have k: "load_key py_parse config key = Inr (v key)"
    and rest: "list_all (\<lambda>k. load_key py_parse config k = Inr (v k)) keys"
    by simp_all
  have "load_keys py_parse config (key # keys) (res, m) =
        load_keys py_parse config keys (dict_set key (v key) res, dict_set key (v key) m)"
    using k
    by (auto simp: load_key_def Let_def split: option.splits sum.splits if_splits)
  then show ?case using Cons.IH[OF rest] by simp
qed

lemma load_config_ini_ok:
  assumes "list_all (\<lambda>k. load_key py_parse config k = Inr (v k)) target_keys"
  shows "load_config_ini py_parse (Some config) engine =
     (Inr (Some (map (\<lambda>k. (k, v k)) target_keys)),
      foldl (\<lambda>d k. dict_set k (v k) d) engine target_keys)"
proof -
  have "load_keys py_parse config [''H_21'', ''H_31'', ''H_41''] ([], engine) =
     (Inr (foldl (\<lambda>d k. dict_set k (v k) d) [] target_keys),
      foldl (\<lambda>d k. dict_set k (v k) d) engine target_keys)"
    using load_keys_ok[OF assms, of "[]" engine] by (simp add: target_keys_def)
  then show ?thesis
    by (simp add: load_config_ini_def target_keys_def del: load_keys.simps)
qed

lemma no_transform_load_key: "no_transform config key \<Longrightarrow> load_key py_parse config key = Inr None"
  by (auto simp: no_transform_def load_key_def split: option.splits)

lemma dict_get_dict_set: "dict_get (dict_set k v d) k' = (if k' = k then Some v else dict_get d k')"
  by (induction d) (auto simp: dict_get_def)

lemma matrix_get_dict_set:
  "matrix_get (dict_set k v d) k' = (if k' = k then v else matrix_get d k')"
  by (cases v) (simp_all add: matrix_get_def dict_get_dict_set)

text \<open>
  C4, as stated: saving and loading back reproduces the matrix of every key. The file
  has the four sections \<open>H_11\<close>, \<open>H_21\<close>, \<open>H_31\<close> and \<open>H_41\<close>, and loading reads the
  three target-band sections only: an engine that saved the identity under \<open>H_11\<close> and
  a matrix under \<open>H_21\<close> writes both, and an engine that loads the file has the matrix of
  \<open>H_21\<close> and nothing under \<open>H_11\<close>, in the returned dictionary and in its matrices.
\<close>

theorem reference_band_not_reloaded_counterexample:
  "\<not> list_all
        (\<lambda>key. matrix_get
                  (snd (load_config_ini (\<lambda>s. Some (nat_of_digits s))
                          (Some (save_config_ini str_nat
                                   [(''H_21'', Some [[1, 0, 5], [0, 1, 7], [0, 0, 1]]),
                                    (''H_31'', None), (''H_41'', None),
                                    (''H_11'', Some [[1, 0, 0], [0, 1, 0], [0, 0, 1]])]))
                          init_matrices)) key
                = matrix_get [(''H_21'', Some [[1, 0, 5], [0, 1, 7], [0, 0, 1]]),
                              (''H_31'', None), (''H_41'', None),
                              (''H_11'', Some [[1, 0, 0], [0, 1, 0], [0, 0, 1]])] key)
        [''H_11'', ''H_21'', ''H_31'', ''H_41'']
   \<and> load_config_ini (\<lambda>s. Some (nat_of_digits s))
        (Some (save_config_ini str_nat
                 [(''H_21'', Some [[1, 0, 5], [0, 1, 7], [0, 0, 1]]),
                  (''H_31'', None), (''H_41'', None),
                  (''H_11'', Some [[1, 0, 0], [0, 1, 0], [0, 0, 1]])]))
        init_matrices
      = (Inr (Some [(''H_21'', Some [[1, 0, 5], [0, 1, 7], [0, 0, 1]]),
                    (''H_31'', None), (''H_41'', None)]),
         [(''H_21'', Some [[1, 0, 5], [0, 1, 7], [0, 0, 1]]), (''H_31'', None), (''H_41'', None)])"
  by code_simp

text \<open>
  C4, amended: for each of the target-band keys \<open>H_21\<close>, \<open>H_31\<close> and \<open>H_41\<close>, saving
  the homography set and loading the file back reproduces the \<open>None\<close> marker, or a
  3 x 3 matrix whose entries are those that \<open>float\<close> reads from the texts \<open>str\<close> wrote
  (equal within the tolerance of that pair), in the returned dictionary and in the engine.
  On load, a key whose section is absent, a section without \<open>matrix\<close> option and the
  token \<open>None\<close> are all accepted and give \<open>None\<close> for the band; a file whose three
  keys all load gives exactly the three loaded values.
\<close>

theorem homography_round_trip_target_bands:
  assumes "list_all (\<lambda>key. storable py_str py_parse close (matrix_get matrices key)) target_keys"
  shows "(\<exists>res engine'.
            load_config_ini py_parse (Some (save_config_ini py_str matrices)) engine
              = (Inr (Some res), engine')
            \<and> dict_keys res = target_keys
            \<and> list_all (\<lambda>key. same_matrix close (matrix_get matrices key) (matrix_get res key)
                               \<and> matrix_get engine' key = matrix_get res key) target_keys)
     \<and> (no_transform config key \<longrightarrow> load_key py_parse config key = Inr None)
     \<and> (list_all (\<lambda>k. load_key py_parse config k = Inr (v k)) target_keys \<longrightarrow>
          load_config_ini py_parse (Some config) engine =
            (Inr (Some (map (\<lambda>k. (k, v k)) target_keys)),
             foldl (\<lambda>d k. dict_set k (v k) d) engine target_keys))"
proof (intro conjI impI)
  let ?file = "save_config_ini py_str matrices"
  have "\<exists>v. load_key py_parse ?file ''H_21'' = Inr v \<and>
             same_matrix close (matrix_get matrices ''H_21'') v"
    using assms by (intro load_key_saved) (simp_all add: target_keys_def)
  then obtain v2 where v2: "load_key py_parse ?file ''H_21'' = Inr v2"
    "same_matrix close (matrix_get matrices ''H_21'') v2" by blast
  have "\<exists>v. load_key py_parse ?file ''H_31'' = Inr v \<and>
             same_matrix close (matrix_get matrices ''H_31'') v"
    using assms by (intro load_key_saved) (simp_all add: target_keys_def)
  then obtain v3 where v3: "load_key py_parse ?file ''H_31'' = Inr v3"
    "same_matrix close (matrix_get matrices ''H_31'') v3" by blast
  have "\<exists>v. load_key py_parse ?file ''H_41'' = Inr v \<and>
             same_matrix close (matrix_get matrices ''H_41'') v"
    using assms by (intro load_key_saved) (simp_all add: target_keys_def)
  then obtain v4 where v4: "load_key py_parse ?file ''H_41'' = Inr v4"
    "same_matrix close (matrix_get matrices ''H_41'') v4" by blast
  let ?v = "\<lambda>k. if k = ''H_21'' then v2 else if k = ''H_31'' then v3 else v4"
  have "list_all (\<lambda>k. load_key py_parse ?file k = Inr (?v k)) target_keys"
    using v2(1) v3(1) v4(1) by (simp add: target_keys_def)
  then have load: "load_config_ini py_parse (Some ?file) engine =
      (Inr (Some (map (\<lambda>k. (k, ?v k)) target_keys)),
       foldl (\<lambda>d k. dict_set k (?v k) d) engine target_keys)"
    by (rule load_config_ini_ok)
  have keys: "dict_keys (map (\<lambda>k. (k, ?v k)) target_keys) = target_keys"
    by (simp add: dict_keys_def comp_def)
  have res: "matrix_get (map (\<lambda>k. (k, ?v k)) target_keys) ''H_21'' = v2"
    "matrix_get (map (\<lambda>k. (k, ?v k)) target_keys) ''H_31'' = v3"
    "matrix_get (map (\<lambda>k. (k, ?v k)) target_keys) ''H_41'' = v4"
    by (cases v2; cases v3; cases v4; simp add: matrix_get_def dict_get_def target_keys_def)+
  have eng: "matrix_get (foldl (\<lambda>d k. dict_set k (?v k) d) engine target_keys) ''H_21'' = v2"
    "matrix_get (foldl (\<lambda>d k. dict_set k (?v k) d) engine target_keys) ''H_31'' = v3"
    "matrix_get (foldl (\<lambda>d k. dict_set k (?v k) d) engine target_keys) ''H_41'' = v4"
    by (simp_all add: target_keys_def matrix_get_dict_set)
  have "list_all (\<lambda>key. same_matrix close (matrix_get matrices key)
                          (matrix_get (map (\<lambda>k. (k, ?v k)) target_keys) key)
                       \<and> matrix_get (foldl (\<lambda>d k. dict_set k (?v k) d) engine target_keys) key
                           = matrix_get (map (\<lambda>k. (k, ?v k)) target_keys) key) target_keys"
    using v2(2) v3(2) v4(2) res eng unfolding target_keys_def by simp
  then show "\<exists>res engine'.
            load_config_ini py_parse (Some ?file) engine = (Inr (Some res), engine')
            \<and> dict_keys res = target_keys
            \<and> list_all (\<lambda>key. same_matrix close (matrix_get matrices key) (matrix_get res key)
                               \<and> matrix_get engine' key = matrix_get res key) target_keys"
    using load keys by blast
next
  assume "no_transform config key"
  then show "load_key py_parse config key = Inr None"
    by (rule no_transform_load_key)
next
  assume "list_all (\<lambda>k. load_key py_parse config k = Inr (v k)) target_keys"
  then show "load_config_ini py_parse (Some config) engine =
            (Inr (Some (map (\<lambda>k. (k, v k)) target_keys)),
             foldl (\<lambda>d k. dict_set k (v k) d) engine target_keys)"
    by (rule load_config_ini_ok)
qed

text \<open>
  The theorem at an engine holding a matrix for \<open>H_21\<close> and the identity for \<open>H_11\<close>,
  saved and loaded into a fresh engine, and at a file that has no section \<open>H_21\<close>, the
  token \<open>None\<close> under \<open>H_31\<close> and a section \<open>H_41\<close> without \<open>matrix\<close> option. Entries
  are natural numbers written in decimal and compared by equality.
\<close>

theorem homography_round_trip_target_bands_witness:
  "list_all (\<lambda>key. storable str_nat (\<lambda>s. Some (nat_of_digits s)) (=)
                      (matrix_get [(''H_21'', Some [[1, 0, 5], [0, 1, 7], [0, 0, 1]]),
                                   (''H_31'', None), (''H_41'', None),
                                   (''H_11'', Some [[1, 0, 0], [0, 1, 0], [0, 0, 1]])] key))
      target_keys
   \<and> (\<exists>res engine'.
         load_config_ini (\<lambda>s. Some (nat_of_digits s))
           (Some (save_config_ini str_nat
                    [(''H_21'', Some [[1, 0, 5], [0, 1, 7], [0, 0, 1]]),
                     (''H_31'', None), (''H_41'', None),
                     (''H_11'', Some [[1, 0, 0], [0, 1, 0], [0, 0, 1]])]))
           init_matrices = (Inr (Some res), engine')
         \<and> matrix_get res ''H_21'' = Some [[1, 0, 5], [0, 1, 7], [0, 0, 1]]
         \<and> matrix_get res ''H_31'' = None
         \<and> matrix_get engine' ''H_21'' = Some [[1, 0, 5], [0, 1, 7], [0, 0, 1]])
   \<and> list_all (no_transform [(''H_31'', [(''matrix'', ''None'')]), (''H_41'', [(''note'', ''1'')])])
       target_keys
   \<and> load_config_ini (\<lambda>s. Some (nat_of_digits s))
        (Some [(''H_31'', [(''matrix'', ''None'')]), (''H_41'', [(''note'', ''1'')])])
        [(''H_21'', Some [[1, 0, 5], [0, 1, 7], [0, 0, 1 :: nat]])]
      = (Inr (Some [(''H_21'', None), (''H_31'', None), (''H_41'', None)]),
         [(''H_21'', None), (''H_31'', None), (''H_41'', None)])"
proof -
  let ?P = "\<lambda>s. Some (nat_of_digits s)"
  let ?M = "[(''H_21'', Some [[1, 0, 5], [0, 1, 7], [0, 0, 1 :: nat]]),
             (''H_31'', None), (''H_41'', None),
             (''H_11'', Some [[1, 0, 0], [0, 1, 0], [0, 0, 1]])]"
  let ?C = "[(''H_31'', [(''matrix'', ''None'')]), (''H_41'', [(''note'', ''1'')])]"
  let ?E = "[(''H_21'', Some [[1, 0, 5], [0, 1, 7], [0, 0, 1 :: nat]])]"
  have h: "list_all (\<lambda>key. storable str_nat ?P (=) (matrix_get ?M key)) target_keys"
    by code_simp
  have nt: "list_all (no_transform ?C) target_keys"
    by code_simp
  note rt = homography_round_trip_target_bands[OF h, where engine = init_matrices]
  from rt obtain res engine' where
    load: "load_config_ini ?P (Some (save_config_ini str_nat ?M)) init_matrices
             = (Inr (Some res), engine')"
    and same: "list_all (\<lambda>key. same_matrix (=) (matrix_get ?M key) (matrix_get res key)
                               \<and> matrix_get engine' key = matrix_get res key) target_keys"
    by blast
  have m21: "matrix_get ?M ''H_21'' = Some [[1, 0, 5], [0, 1, 7], [0, 0, 1]]"
    and m31: "matrix_get ?M ''H_31'' = None"
    by (simp_all add: matrix_get_def dict_get_def)
  have eq: "\<And>a b :: nat list list option. same_matrix (=) a b \<Longrightarrow> a = b"
  proof -
    fix a b :: "nat list list option"
    assume "same_matrix (=) a b"
    then show "a = b"
      by (cases a; cases b) (simp_all add: same_matrix_def list.rel_eq)
  qed
  have s21: "same_matrix (=) (matrix_get ?M ''H_21'') (matrix_get res ''H_21'')"
    and s31: "same_matrix (=) (matrix_get ?M ''H_31'') (matrix_get res ''H_31'')"
    and g21: "matrix_get engine' ''H_21'' = matrix_get res ''H_21''"
    using same unfolding target_keys_def by simp_all
  have r21: "matrix_get res ''H_21'' = Some [[1, 0, 5], [0, 1, 7], [0, 0, 1]]"
    using eq[OF s21] m21 by simp
  have r31: "matrix_get res ''H_31'' = None"
    using eq[OF s31] m31 by simp
  have e21: "matrix_get engine' ''H_21'' = Some [[1, 0, 5], [0, 1, 7], [0, 0, 1]]"
    using g21 r21 by simp
  have n21: "no_transform ?C ''H_21''" and n31: "no_transform ?C ''H_31''"
    and n41: "no_transform ?C ''H_41''"
    using nt unfolding target_keys_def by simp_all
  have k21: "load_key ?P ?C ''H_21'' = Inr None"
    using homography_round_trip_target_bands[OF h, where config = ?C and key = "''H_21''"] n21
    by blast
  have k31: "load_key ?P ?C ''H_31'' = Inr None"
    using homography_round_trip_target_bands[OF h, where config = ?C and key = "''H_31''"] n31
    by blast
  have k41: "load_key ?P ?C ''H_41'' = Inr None"
    using homography_round_trip_target_bands[OF h, where config = ?C and key = "''H_41''"] n41
    by blast
  have keys: "list_all (\<lambda>k. load_key ?P ?C k = Inr ((\<lambda>k. None) k)) target_keys"
    using k21 k31 k41 unfolding target_keys_def by simp
  have "load_config_ini ?P (Some ?C) ?E =
      (Inr (Some (map (\<lambda>k. (k, None)) target_keys)),
       foldl (\<lambda>d k. dict_set k None d) ?E target_keys)"
    using homography_round_trip_target_bands[OF h, where config = ?C and v = "\<lambda>k. None"
        and engine = ?E] keys
    by blast
  then have final: "load_config_ini ?P (Some ?C) ?E
      = (Inr (Some [(''H_21'', None), (''H_31'', None), (''H_41'', None)]),
         [(''H_21'', None), (''H_31'', None), (''H_41'', None)])"
    by (simp add: target_keys_def)
  have ex: "\<exists>res engine'.
         load_config_ini ?P (Some (save_config_ini str_nat ?M)) init_matrices
           = (Inr (Some res), engine')
         \<and> matrix_get res ''H_21'' = Some [[1, 0, 5], [0, 1, 7], [0, 0, 1]]
         \<and> matrix_get res ''H_31'' = None
         \<and> matrix_get engine' ''H_21'' = Some [[1, 0, 5], [0, 1, 7], [0, 0, 1]]"
    using load r21 r31 e21 by (intro exI conjI)
  show ?thesis
    using h ex nt final by (intro conjI)
qed

end
